theory Spec2Isabelle
  imports Complex_Main
begin

section \<open>Strings and numbers of the host language\<close>

text \<open>
  Strings are byte strings: an address, a chain name and every label of the program is
  ASCII, and the icons are written as their UTF-8 bytes. \<open>toLowerCase\<close> and
  \<open>toUpperCase\<close> act on the ASCII letters, which is what the built-in methods do on
  such strings. Counts and nonces are natural numbers.
\<close>

definition toLowerChar :: "char \<Rightarrow> char" where
  "toLowerChar c =
     (let n = of_char c :: nat in if 65 \<le> n \<and> n \<le> 90 then char_of (n + 32) else c)"

definition toLowerCase :: "string \<Rightarrow> string" where
  "toLowerCase s = map toLowerChar s"

definition toUpperChar :: "char \<Rightarrow> char" where
  "toUpperChar c =
     (let n = of_char c :: nat in if 97 \<le> n \<and> n \<le> 122 then char_of (n - 32) else c)"

definition toUpperCase :: "string \<Rightarrow> string" where
  "toUpperCase s = map toUpperChar s"

text \<open>\<open>xs.join(sep)\<close>\<close>

fun join :: "string \<Rightarrow> string list \<Rightarrow> string" where
  "join sep [] = []"
| "join sep [x] = x"
| "join sep (x # y # ys) = x @ sep @ join sep (y # ys)"

text \<open>
  A number inside a template literal: the decimal digits of a natural number (the
  program's numbers are counts, nonces and indices, far below the \<open>10\<^sup>2\<^sup>1\<close> from which
  the host language switches to exponent notation).
\<close>

fun numToString :: "nat \<Rightarrow> string" where
  "numToString n =
     (if n < 10 then [char_of (48 + n)]
      else numToString (n div 10) @ [char_of (48 + n mod 10)])"

declare numToString.simps [simp del]

text \<open>Truthiness of an optional boolean and of an optional string.\<close>

definition truthy :: "bool option \<Rightarrow> bool" where
  "truthy b = (b = Some True)"

definition truthyStr :: "string option \<Rightarrow> bool" where
  "truthyStr s = (case s of None \<Rightarrow> False | Some t \<Rightarrow> t \<noteq> [])"


section \<open>Data model (types.ts and the shared types)\<close>

datatype ChainName =
  mainnet | arbitrum | optimism | polygon | gnosis | base | avalanche | zkevm

record SafeAddress =
  address :: string
  chain :: ChainName

record SignerInfo =
  address :: string
  handle :: string

datatype ClientTxType = TRANSACTION | LABEL

text \<open>An entry of \<open>executionInfo.missingSigners\<close> in a raw service record.\<close>

record AddressEx =
  "value" :: string
  name :: "string option"
  logoUri :: "string option"

record ExecutionInfo =
  nonce :: nat
  confirmationsRequired :: nat
  confirmationsSubmitted :: nat
  missingSigners :: "AddressEx list"

record ClientTxBody =
  tx_id :: string
  timestamp :: nat
  executionInfo :: ExecutionInfo

record SafeClientTransaction =
  "type" :: ClientTxType
  transaction :: "ClientTxBody option"

text \<open>
  A confirmation as \<open>convertToEnhancedFormat\<close> builds it. \<open>submissionDate\<close> holds the
  instant whose ISO-8601 text the program stores there.
\<close>

record Confirmation =
  owner :: string
  submissionDate :: nat
  signature :: string
  signatureType :: string

record QueuedSafeTransaction =
  nonce :: nat
  signedCount :: nat
  confirmationsRequired :: nat
  confirmations :: "Confirmation list"
  missingSigners :: "string list option"
  tx_id :: string
  "note" :: "string option"
  safe :: string

record SafeInfo =
  owners :: "string list"
  threshold :: nat

record QueuedTransactionData =
  chain :: ChainName
  address :: string
  transactions :: "QueuedSafeTransaction list"
  safeInfo :: "SafeInfo option"
  safeUrl :: string

text \<open>Every option of \<open>FormatOptions\<close> may be omitted.\<close>

record FormatOptions =
  showConfirmedSigner :: "bool option"
  showPendingSigner :: "bool option"
  showStatusIcon :: "bool option"
  showChainIcon :: "bool option"
  showTxNote :: "bool option"


section \<open>safe-api.ts: pure helpers\<close>

definition compareAddresses :: "string \<Rightarrow> string \<Rightarrow> bool" where
  "compareAddresses address1 address2 = (toLowerCase address1 = toLowerCase address2)"

definition shortenAddress :: "string \<Rightarrow> string" where
  "shortenAddress a =
     (if length a < 10 then a
      else take 6 a @ ''...'' @ drop (length a - 4) a)"


section \<open>index.ts: the formatter of one transaction\<close>

text \<open>\<open>signers.find(s => compareAddresses(s.address, address))\<close>\<close>

definition getSignerHandle :: "string \<Rightarrow> SignerInfo list \<Rightarrow> string option \<Rightarrow> string" where
  "getSignerHandle a signers prefix =
     (case find (\<lambda>s. compareAddresses (SignerInfo.address s) a) signers of
        Some signer \<Rightarrow> (case prefix of Some p \<Rightarrow> p | None \<Rightarrow> []) @ handle signer
      | None \<Rightarrow> shortenAddress a)"

text \<open>
  Lines 94 to 105 of the formatter: the lists \<open>signed\<close> and \<open>notSigned\<close> of a
  transaction, given the owners of its wallet. The first path is taken when
  \<open>missingSigners\<close> is present and not empty.
\<close>

definition signerLists :: "QueuedSafeTransaction \<Rightarrow> string list \<Rightarrow> string list \<times> string list" where
  "signerLists tx safeOwners =
     (case missingSigners tx of
        Some (m # ms) \<Rightarrow>
          (let missingSignersLower = map toLowerCase (m # ms)
           in (filter (\<lambda>owner. toLowerCase owner \<notin> set missingSignersLower) safeOwners,
               m # ms))
      | _ \<Rightarrow>
          (let signedAddresses = map (\<lambda>c. toLowerCase (owner c)) (confirmations tx)
           in (filter (\<lambda>owner. toLowerCase owner \<in> set signedAddresses) safeOwners,
               filter (\<lambda>owner. toLowerCase owner \<notin> set signedAddresses) safeOwners)))"


subsection \<open>The double-precision product \<open>required * 0.7\<close>\<close>

text \<open>
  \<open>0.7\<close> is the double \<open>6305039478318694 / 2\<^sup>5\<^sup>3\<close>. The product of a natural number
  with it is the exact product rounded to 53 significant bits, to nearest, ties to even;
  scaled by \<open>2\<^sup>5\<^sup>3\<close> the exact product is a natural number, which \<open>roundSignificand\<close>
  rounds.
\<close>

fun bitLength :: "nat \<Rightarrow> nat" where
  "bitLength n = (if n = 0 then 0 else Suc (bitLength (n div 2)))"

declare bitLength.simps [simp del]

definition roundSignificand :: "nat \<Rightarrow> nat" where
  "roundSignificand N =
     (let b = bitLength N in
      if b \<le> 53 then N
      else
        (let s = b - 53; q = N div 2 ^ s; r = N mod 2 ^ s; h = 2 ^ (s - 1)
         in if r < h \<or> (r = h \<and> even q) then q * 2 ^ s else (q + 1) * 2 ^ s))"

definition times0_7 :: "nat \<Rightarrow> rat" where
  "times0_7 n = of_nat (roundSignificand (n * 6305039478318694)) / 2 ^ 53"


subsection \<open>Icons\<close>

text \<open>The medal: ready to execute.\<close>

definition iconReady :: string where
  "iconReady = [CHR 0xF0, CHR 0x9F, CHR 0x8F, CHR 0x85]"

text \<open>The memo: partially signed, nearly ready.\<close>

definition iconNearlyReady :: string where
  "iconNearlyReady = [CHR 0xF0, CHR 0x9F, CHR 0x93, CHR 0x9D]"

text \<open>The warning sign: needs attention.\<close>

definition iconNeedsAttention :: string where
  "iconNeedsAttention = [CHR 0xE2, CHR 0x9A, CHR 0xA0, CHR 0xEF, CHR 0xB8, CHR 0x8F]"

definition iconSigned :: string where
  "iconSigned = [CHR 0xE2, CHR 0x9C, CHR 0x94, CHR 0xEF, CHR 0xB8, CHR 0x8F] @ '' ''"

definition iconNotSigned :: string where
  "iconNotSigned = [CHR 0xE2, CHR 0x8F, CHR 0xB3]"

definition iconLink :: string where
  "iconLink = [CHR 0xF0, CHR 0x9F, CHR 0x94, CHR 0x97]"

definition bullet :: string where
  "bullet = [CHR 0xE2, CHR 0x80, CHR 0xA2]"

definition getStatusIcon :: "nat \<Rightarrow> nat \<Rightarrow> string" where
  "getStatusIcon confirmed required =
     (if confirmed \<ge> required then iconReady
      else if int confirmed \<ge> \<lceil>times0_7 required\<rceil> then iconNearlyReady
      else iconNeedsAttention)"

fun getChainIcon :: "ChainName \<Rightarrow> string" where
  "getChainIcon mainnet = [CHR 0xE2, CHR 0x9A, CHR 0xAB]"
| "getChainIcon arbitrum = [CHR 0xF0, CHR 0x9F, CHR 0x94, CHR 0xB5]"
| "getChainIcon optimism = [CHR 0xF0, CHR 0x9F, CHR 0x94, CHR 0xB4]"
| "getChainIcon polygon = [CHR 0xF0, CHR 0x9F, CHR 0x9F, CHR 0xA3]"
| "getChainIcon gnosis = [CHR 0xF0, CHR 0x9F, CHR 0x9F, CHR 0xA2]"
| "getChainIcon base = [CHR 0xE2, CHR 0x9A, CHR 0xAA]"
| "getChainIcon avalanche = [CHR 0xF0, CHR 0x9F, CHR 0x94, CHR 0xBA]"
| "getChainIcon zkevm = [CHR 0xF0, CHR 0x9F, CHR 0x9F, CHR 0xAA]"

text \<open>The string a chain name is at run time.\<close>

fun chainString :: "ChainName \<Rightarrow> string" where
  "chainString mainnet = ''mainnet''"
| "chainString arbitrum = ''arbitrum''"
| "chainString optimism = ''optimism''"
| "chainString polygon = ''polygon''"
| "chainString gnosis = ''gnosis''"
| "chainString base = ''base''"
| "chainString avalanche = ''avalanche''"
| "chainString zkevm = ''zkevm''"


subsection \<open>formatTransactionMessage\<close>

text \<open>The first line of the message (line 87).\<close>

definition headerLine :: "QueuedSafeTransaction \<Rightarrow> ChainName \<Rightarrow> FormatOptions \<Rightarrow> string" where
  "headerLine tx c options =
     (let confirmed = signedCount tx;
          required = confirmationsRequired tx;
          statusIcon = (if truthy (showStatusIcon options) then getStatusIcon confirmed required else []);
          chainIcon = (if truthy (showChainIcon options) then getChainIcon c else []);
          chainName = toUpperCase (chainString c)
      in chainIcon @ '' '' @ chainName @ '' - Tx '' @ numToString (nonce tx) @ '' '' @ statusIcon
           @ '' '' @ numToString confirmed @ ''/'' @ numToString required @ ''\<newline>'')"

text \<open>The note line (lines 89 to 91).\<close>

definition noteLine :: "QueuedSafeTransaction \<Rightarrow> FormatOptions \<Rightarrow> string" where
  "noteLine tx options =
     (case note tx of
        Some n \<Rightarrow>
          if truthy (showTxNote options) \<and> n \<noteq> []
          then ''    '' @ iconNearlyReady @ '' Note: '' @ n @ ''\<newline>''
          else []
      | None \<Rightarrow> [])"

text \<open>The local function \<open>addSignerLine\<close>: what it appends to the message.\<close>

definition addSignerLine :: "SignerInfo list \<Rightarrow> string list \<Rightarrow> string \<Rightarrow> string \<Rightarrow> string" where
  "addSignerLine signers signerList label icon =
     (if length signerList > 0
      then ''    '' @ icon @ '' '' @ label @ '': ''
             @ join '', '' (map (\<lambda>addr. getSignerHandle addr signers None) signerList) @ ''\<newline>''
      else [])"

text \<open>The signer lines (lines 93 to 120).\<close>

definition signerLines ::
  "QueuedSafeTransaction \<Rightarrow> string list \<Rightarrow> SignerInfo list \<Rightarrow> FormatOptions \<Rightarrow> string" where
  "signerLines tx safeOwners signers options =
     (if (truthy (showConfirmedSigner options) \<or> truthy (showPendingSigner options))
         \<and> length safeOwners > 0
      then
        (let (signed, notSigned) = signerLists tx safeOwners
         in (if truthy (showConfirmedSigner options)
             then addSignerLine signers signed ''Signed'' iconSigned else [])
            @ (if truthy (showPendingSigner options)
               then addSignerLine signers notSigned ''Not Signed'' iconNotSigned else []))
      else [])"

definition formatTransactionMessage ::
  "QueuedSafeTransaction \<Rightarrow> ChainName \<Rightarrow> string list \<Rightarrow> SignerInfo list \<Rightarrow> FormatOptions \<Rightarrow> string" where
  "formatTransactionMessage tx c safeOwners signers options =
     headerLine tx c options @ noteLine tx options @ signerLines tx safeOwners signers options"


section \<open>safe-api.ts: the transaction service\<close>

text \<open>
  The service is a parameter of the model: what each request answers in one run, \<open>None\<close>
  when the request fails (no answer, an error status, a time-out). A fetch function returns
  its value together with the requests it has issued, in the order of issue.
\<close>

record SafeResponseData =
  data_owners :: "string list option"
  data_threshold :: "nat option"

record Network =
  getQueued :: "string \<Rightarrow> ChainName \<Rightarrow> SafeClientTransaction list option"
  getSafe :: "string \<Rightarrow> ChainName \<Rightarrow> SafeResponseData option"
  getDetails :: "string \<Rightarrow> ChainName \<Rightarrow> string option option"

datatype NotificationConfig =
    Console (enabled: bool) (colored: "bool option")
  | Telegram (enabled: bool) (botToken: string) (chatId: string)
      (disableNotification: "bool option") (parseMode: "string option")
  | Webhook (enabled: bool) (url: string) (headers: "(string \<times> string) list option")

text \<open>
  What a run does to the outside: the three kinds of request to the service, the call of
  the notification module, and the deliveries that module makes.
\<close>

datatype Event =
    QueuedRequest string ChainName
  | SafeInfoRequest string ChainName
  | DetailsRequest string ChainName
  | Dispatch "NotificationConfig list" string
  | ConsolePrint bool string
  | TelegramPost string string string
  | WebhookPost string string

datatype Error = ConfigError | RangeError

text \<open>
  \<open>convertToEnhancedFormat\<close>. \<open>Array.from\<close> raises a range error for a length above
  \<open>2\<^sup>3\<^sup>2 - 1\<close>, and \<open>toISOString\<close>, called once per placeholder, raises one for an
  instant beyond 8640000000000000 ms.
\<close>

definition convertToEnhancedFormat ::
  "SafeClientTransaction \<Rightarrow> string \<Rightarrow> Error + QueuedSafeTransaction option" where
  "convertToEnhancedFormat clientTx safeAddress =
     (case transaction clientTx of
        None \<Rightarrow> Inr None
      | Some tx \<Rightarrow>
          if type clientTx \<noteq> TRANSACTION then Inr None
          else
            (let info = executionInfo tx;
                 missing = map value (ExecutionInfo.missingSigners info);
                 n = confirmationsSubmitted info
             in if n > 4294967295 then Inl RangeError
                else if n > 0 \<and> timestamp tx > 8640000000000000 then Inl RangeError
                else Inr (Some
                  \<lparr> nonce = ExecutionInfo.nonce info,
                    signedCount = n,
                    confirmationsRequired = ExecutionInfo.confirmationsRequired info,
                    confirmations =
                      map (\<lambda>i. \<lparr> owner = ''signed_'' @ numToString i,
                                  submissionDate = timestamp tx,
                                  signature = [],
                                  signatureType = ''ETH_SIGN'' \<rparr>) [0..<n],
                    missingSigners = Some missing,
                    tx_id = ClientTxBody.tx_id tx,
                    note = None,
                    safe = safeAddress \<rparr>)))"

text \<open>\<open>items.map(item => convertToEnhancedFormat(item, safeAddress))\<close>: the first error ends it.\<close>

fun convertAll ::
  "SafeClientTransaction list \<Rightarrow> string \<Rightarrow> Error + QueuedSafeTransaction option list" where
  "convertAll [] safeAddress = Inr []"
| "convertAll (item # items) safeAddress =
     (case convertToEnhancedFormat item safeAddress of
        Inl e \<Rightarrow> Inl e
      | Inr t \<Rightarrow>
          (case convertAll items safeAddress of
             Inl e \<Rightarrow> Inl e
           | Inr ts \<Rightarrow> Inr (t # ts)))"

text \<open>\<open>.filter(tx => tx !== null)\<close>\<close>

fun dropNull :: "'a option list \<Rightarrow> 'a list" where
  "dropNull [] = []"
| "dropNull (None # xs) = dropNull xs"
| "dropNull (Some x # xs) = x # dropNull xs"

definition fetchSafeInfo :: "Network \<Rightarrow> string \<Rightarrow> ChainName \<Rightarrow> SafeInfo option \<times> Event list" where
  "fetchSafeInfo net safeAddress c =
     ((case getSafe net safeAddress c of
         None \<Rightarrow> None
       | Some d \<Rightarrow>
           Some \<lparr> owners = (case data_owners d of Some os \<Rightarrow> os | None \<Rightarrow> []),
                  threshold = (case data_threshold d of
                                 Some t \<Rightarrow> if t = 0 then 1 else t
                               | None \<Rightarrow> 1) \<rparr>),
      [SafeInfoRequest safeAddress c])"

definition fetchQueuedTransactions ::
  "Network \<Rightarrow> string \<Rightarrow> ChainName \<Rightarrow> QueuedSafeTransaction list \<times> Event list" where
  "fetchQueuedTransactions net safeAddress c =
     ((case getQueued net safeAddress c of
         None \<Rightarrow> []
       | Some results \<Rightarrow>
           (case convertAll (filter (\<lambda>item. type item = TRANSACTION) results) safeAddress of
              Inl e \<Rightarrow> []
            | Inr ts \<Rightarrow> dropNull ts)),
      [QueuedRequest safeAddress c])"

text \<open>The result is \<open>None\<close> for \<open>null\<close>, and \<open>Some n\<close> for an object whose \<open>note\<close> is \<open>n\<close>.\<close>

definition fetchTransactionDetails ::
  "Network \<Rightarrow> string \<Rightarrow> ChainName \<Rightarrow> string option option \<times> Event list" where
  "fetchTransactionDetails net transactionId c =
     ((case getDetails net transactionId c of
         None \<Rightarrow> None
       | Some n \<Rightarrow> Some (if truthyStr n then n else None)),
      [DetailsRequest transactionId c])"

definition generateSafeUrl :: "string \<Rightarrow> ChainName \<Rightarrow> string" where
  "generateSafeUrl safeAddress c =
     (let chainPrefix = (if c = mainnet then ''eth'' else chainString c)
      in ''https://app.safe.global/home?safe='' @ chainPrefix @ '':'' @ safeAddress)"


section \<open>index.ts: fetchAllQueuedTransactions\<close>

text \<open>
  \<open>safesByChain\<close>: the object built by \<open>reduce\<close>, as the list of its entries in
  insertion order, which is the order \<open>Object.entries\<close> walks them in.
\<close>

definition addSafe :: "(ChainName \<times> string list) list \<Rightarrow> SafeAddress \<Rightarrow> (ChainName \<times> string list) list" where
  "addSafe acc s =
     (let acc' = (if map_of acc (SafeAddress.chain s) = None
                  then acc @ [(SafeAddress.chain s, [])] else acc)
      in map (\<lambda>(c, as). if c = SafeAddress.chain s then (c, as @ [SafeAddress.address s]) else (c, as))
           acc')"

definition safesByChain :: "SafeAddress list \<Rightarrow> (ChainName \<times> string list) list" where
  "safesByChain safes = foldl addSafe [] safes"

text \<open>Lines 175 to 179: one transaction of the note loop.\<close>

definition addNote ::
  "Network \<Rightarrow> ChainName \<Rightarrow> QueuedSafeTransaction \<Rightarrow> QueuedSafeTransaction \<times> Event list" where
  "addNote net c tx =
     (let (txDetails, ev) = fetchTransactionDetails net (tx_id tx) c
      in ((case txDetails of
             Some (Some n) \<Rightarrow> if n \<noteq> [] then tx\<lparr>note := Some n\<rparr> else tx
           | _ \<Rightarrow> tx),
          ev))"

fun fetchNotes ::
  "Network \<Rightarrow> ChainName \<Rightarrow> QueuedSafeTransaction list \<Rightarrow> QueuedSafeTransaction list \<times> Event list" where
  "fetchNotes net c [] = ([], [])"
| "fetchNotes net c (tx # txs) =
     (let (tx', ev) = addNote net c tx;
          (txs', evs) = fetchNotes net c txs
      in (tx' # txs', ev @ evs))"

text \<open>
  The body of the inner loop (lines 155 to 205) for one address: the record pushed to
  \<open>results\<close>, or \<open>None\<close> when the wallet is skipped. No call inside the \<open>try\<close> can
  raise, each of them catching its own errors.
\<close>

definition fetchSafe ::
  "Network \<Rightarrow> FormatOptions \<Rightarrow> ChainName \<Rightarrow> string \<Rightarrow> QueuedTransactionData option \<times> Event list" where
  "fetchSafe net options c a =
     (let (txs, ev1) = fetchQueuedTransactions net a c;
          (info, ev2) =
            (if truthy (showConfirmedSigner options) \<or> truthy (showPendingSigner options)
             then fetchSafeInfo net a c else (None, []))
      in if length txs = 0 then (None, ev1 @ ev2)
         else
           (let (txs', ev3) =
                  (if truthy (showTxNote options) then fetchNotes net c txs else (txs, []))
            in (Some \<lparr> chain = c, address = a, transactions = txs', safeInfo = info,
                       safeUrl = generateSafeUrl a c \<rparr>,
                ev1 @ ev2 @ ev3)))"

fun fetchAddresses ::
  "Network \<Rightarrow> FormatOptions \<Rightarrow> ChainName \<Rightarrow> string list \<Rightarrow> QueuedTransactionData list \<times> Event list" where
  "fetchAddresses net options c [] = ([], [])"
| "fetchAddresses net options c (a # as) =
     (let (r, ev) = fetchSafe net options c a;
          (rs, evs) = fetchAddresses net options c as
      in ((case r of Some d \<Rightarrow> d # rs | None \<Rightarrow> rs), ev @ evs))"

fun fetchChains ::
  "Network \<Rightarrow> FormatOptions \<Rightarrow> (ChainName \<times> string list) list \<Rightarrow> QueuedTransactionData list \<times> Event list" where
  "fetchChains net options [] = ([], [])"
| "fetchChains net options ((c, as) # rest) =
     (let (rs, ev) = fetchAddresses net options c as;
          (rs', ev') = fetchChains net options rest
      in (rs @ rs', ev @ ev'))"

definition fetchAllQueuedTransactions ::
  "Network \<Rightarrow> SafeAddress list \<Rightarrow> FormatOptions \<Rightarrow> QueuedTransactionData list \<times> Event list" where
  "fetchAllQueuedTransactions net safes options = fetchChains net options (safesByChain safes)"


section \<open>index.ts: formatTransactionData\<close>

text \<open>
  \<open>signerSummary\<close> is the list of the entries of the object, in insertion order.
  Line 239: \<open>signerSummary[k] = (signerSummary[k] || 0) + 1\<close>. The keys are
  lower-cased addresses. For a key that an object literal inherits (\<open>constructor\<close>,
  \<open>__proto__\<close>) the object answers with the inherited value instead of a count, and
  it lists a canonical array index before the other keys: the list is the object for the
  other keys, and the property of the summary excludes the inherited ones by hypothesis.
\<close>

definition countSigner :: "(string \<times> nat) list \<Rightarrow> string \<Rightarrow> (string \<times> nat) list" where
  "countSigner summary signerAddress =
     (let normalizedAddress = toLowerCase signerAddress
      in case map_of summary normalizedAddress of
           None \<Rightarrow> summary @ [(normalizedAddress, 1)]
         | Some n \<Rightarrow>
             map (\<lambda>(k, v). if k = normalizedAddress then (k, n + 1) else (k, v)) summary)"

text \<open>Lines 236 to 241.\<close>

definition countTransaction :: "(string \<times> nat) list \<Rightarrow> QueuedSafeTransaction \<Rightarrow> (string \<times> nat) list" where
  "countTransaction summary tx =
     (case missingSigners tx of
        Some ms \<Rightarrow> foldl countSigner summary ms
      | None \<Rightarrow> summary)"

text \<open>\<open>safeInfo?.owners\<close>, with the default \<open>[]\<close> of the parameter \<open>safeOwners\<close>.\<close>

definition ownersOf :: "SafeInfo option \<Rightarrow> string list" where
  "ownersOf info = (case info of Some i \<Rightarrow> owners i | None \<Rightarrow> [])"

text \<open>What one pass of the loop over \<open>data\<close> pushes to \<open>messages\<close>.\<close>

definition safeMessages :: "SignerInfo list \<Rightarrow> FormatOptions \<Rightarrow> QueuedTransactionData \<Rightarrow> string list" where
  "safeMessages signers options d =
     map (\<lambda>tx. formatTransactionMessage tx (chain d) (ownersOf (safeInfo d)) signers options)
       (transactions d)
     @ [iconLink @ '' Safe URL: '' @ safeUrl d @ ''\<newline>'']"

definition summaryLine :: "SignerInfo list \<Rightarrow> string \<times> nat \<Rightarrow> string" where
  "summaryLine signers e =
     (case e of (a, count) \<Rightarrow>
        ''   '' @ bullet @ '' '' @ getSignerHandle a signers (Some ''@'') @ '': '' @ numToString count
          @ '' signature'' @ (if count > 1 then ''s'' else []) @ '' needed'')"

definition formatTransactionData ::
  "QueuedTransactionData list \<Rightarrow> SignerInfo list \<Rightarrow> FormatOptions \<Rightarrow> string list \<times> (string \<times> nat) list" where
  "formatTransactionData data signers options =
     (let messages = concat (map (safeMessages signers options) data);
          signerSummary = foldl (\<lambda>summary d. foldl countTransaction summary (transactions d)) [] data
      in (messages @ map (summaryLine signers) signerSummary @ [''\<newline>\<newline>''], signerSummary))"


section \<open>notifications.ts\<close>

text \<open>
  What each sender delivers. A disabled channel returns at once; the Telegram sender
  raises before posting when the token or the chat is empty. Errors are caught, counted
  and printed by \<open>sendNotifications\<close>, which always returns.
\<close>

fun sendNotification :: "NotificationConfig \<Rightarrow> string \<Rightarrow> Event list" where
  "sendNotification (Console en col) message =
     (if \<not> en then [] else [ConsolePrint (col \<noteq> Some False) message])"
| "sendNotification (Telegram en token chat dis mode) message =
     (if \<not> en then []
      else if token = [] then []
      else if chat = [] then []
      else [TelegramPost token chat message])"
| "sendNotification (Webhook en u hs) message =
     (if \<not> en then [] else [WebhookPost u message])"

definition sendNotifications :: "NotificationConfig list \<Rightarrow> string \<Rightarrow> Event list" where
  "sendNotifications configs message = concat (map (\<lambda>config. sendNotification config message) configs)"


section \<open>index.ts: monitorSafeWalletQueue\<close>

record SafeWalletMonitorConfig =
  safes :: "SafeAddress list"
  signers :: "SignerInfo list"
  formatOptions :: FormatOptions
  notifications :: "NotificationConfig list"
  debug :: "bool option"

record SafeWalletMonitorResult =
  totalTransactions :: nat
  messages :: "string list"
  signerSummary :: "(string \<times> nat) list"
  rawData :: "QueuedTransactionData list"

definition monitorSafeWalletQueue ::
  "Network \<Rightarrow> SafeWalletMonitorConfig \<Rightarrow> (Error + SafeWalletMonitorResult) \<times> Event list" where
  "monitorSafeWalletQueue net config =
     (if length (safes config) = 0 then (Inl ConfigError, [])
      else
        (let (transactionData, ev) =
               fetchAllQueuedTransactions net (safes config) (formatOptions config);
             total = foldl (\<lambda>sum d. sum + length (transactions d)) 0 transactionData;
             (msgs, summary) =
               formatTransactionData transactionData (signers config) (formatOptions config);
             finalMessage = join ''\<newline>'' msgs;
             sent =
               (if total > 0 \<and> length (notifications config) > 0
                then Dispatch (notifications config) finalMessage
                       # sendNotifications (notifications config) finalMessage
                else [])
         in (Inr \<lparr> totalTransactions = total, messages = msgs, signerSummary = summary,
                    rawData = transactionData \<rparr>,
             ev @ sent)))"


section \<open>Vocabulary of the properties\<close>

text \<open>The kinds of events.\<close>

fun isRequest :: "Event \<Rightarrow> bool" where
  "isRequest (QueuedRequest a c) = True"
| "isRequest (SafeInfoRequest a c) = True"
| "isRequest (DetailsRequest i c) = True"
| "isRequest e = False"

fun isDelivery :: "Event \<Rightarrow> bool" where
  "isDelivery (ConsolePrint col m) = True"
| "isDelivery (TelegramPost t ch m) = True"
| "isDelivery (WebhookPost u m) = True"
| "isDelivery e = False"

text \<open>\<open>signerSummary[k] || 0\<close>\<close>

definition tally :: "(string \<times> nat) list \<Rightarrow> string \<Rightarrow> nat" where
  "tally summary k = (case map_of summary k of Some n \<Rightarrow> n | None \<Rightarrow> 0)"

text \<open>The entries of the \<open>missingSigners\<close> list of a transaction, none when it is absent.\<close>

definition missingOf :: "QueuedSafeTransaction \<Rightarrow> string list" where
  "missingOf tx = (case missingSigners tx of Some ms \<Rightarrow> ms | None \<Rightarrow> [])"

text \<open>All transactions of all wallets, in the order of the data.\<close>

definition allTransactions :: "QueuedTransactionData list \<Rightarrow> QueuedSafeTransaction list" where
  "allTransactions data = concat (map transactions data)"

text \<open>What holds of a summary however far the loops have gone.\<close>

definition summaryOk :: "(string \<times> nat) list \<Rightarrow> bool" where
  "summaryOk s = (distinct (map fst s) \<and> (\<forall>p \<in> set s. 0 < snd p))"

text \<open>
  The lower-case property names that an object literal inherits: reading such a key of
  the summary object finds the inherited value, not a count.
\<close>

definition inheritedKey :: "string \<Rightarrow> bool" where
  "inheritedKey k = (k = ''constructor'' \<or> k = ''__proto__'')"


section \<open>Sample data\<close>

definition sampleTx :: QueuedSafeTransaction where
  "sampleTx =
     \<lparr> nonce = 15, signedCount = 1, confirmationsRequired = 3,
       confirmations = [\<lparr> owner = ''signed_0'', submissionDate = 0, signature = [],
                          signatureType = ''ETH_SIGN'' \<rparr>],
       missingSigners = Some [''0xBB'', ''0xcc''],
       tx_id = ''multisig_0xS_0x01'', note = Some ''Pay'', safe = ''0xS'' \<rparr>"

definition sampleOwners :: "string list" where
  "sampleOwners = [''0xaa'', ''0xbb'', ''0xCC'']"

definition pendingOnly :: FormatOptions where
  "pendingOnly =
     \<lparr> showConfirmedSigner = None, showPendingSigner = Some True, showStatusIcon = None,
       showChainIcon = None, showTxNote = None \<rparr>"

definition confirmedTx :: QueuedSafeTransaction where
  "confirmedTx =
     \<lparr> nonce = 7, signedCount = 1, confirmationsRequired = 2,
       confirmations = [\<lparr> owner = ''0xAA'', submissionDate = 0, signature = [],
                          signatureType = ''ETH_SIGN'' \<rparr>],
       missingSigners = None,
       tx_id = ''multisig_0xS_0x02'', note = None, safe = ''0xS'' \<rparr>"

definition sampleRecord :: SafeClientTransaction where
  "sampleRecord =
     \<lparr> type = TRANSACTION,
       transaction = Some
         \<lparr> ClientTxBody.tx_id = ''multisig_0xS_0x01'', timestamp = 1700000000000,
           executionInfo =
             \<lparr> ExecutionInfo.nonce = 15, ExecutionInfo.confirmationsRequired = 3,
               confirmationsSubmitted = 2,
               ExecutionInfo.missingSigners =
                 [\<lparr> value = ''0xBB'', name = None, logoUri = None \<rparr>] \<rparr> \<rparr> \<rparr>"

definition labelRecord :: SafeClientTransaction where
  "labelRecord = \<lparr> type = LABEL, transaction = None \<rparr>"

text \<open>
  A service with one wallet, \<open>0xS\<close> on mainnet, that has one queued transaction; its
  ownership request fails.
\<close>

definition sampleNet :: Network where
  "sampleNet =
     \<lparr> getQueued = (\<lambda>a c. if a = ''0xS'' \<and> c = mainnet
                            then Some [labelRecord, sampleRecord] else Some []),
       getSafe = (\<lambda>a c. None),
       getDetails = (\<lambda>i c. Some (Some ''Pay'')) \<rparr>"

definition fetchedTx :: QueuedSafeTransaction where
  "fetchedTx =
     \<lparr> nonce = 15, signedCount = 2, confirmationsRequired = 3,
       confirmations =
         [\<lparr> owner = ''signed_0'', submissionDate = 1700000000000, signature = [],
             signatureType = ''ETH_SIGN'' \<rparr>,
          \<lparr> owner = ''signed_1'', submissionDate = 1700000000000, signature = [],
             signatureType = ''ETH_SIGN'' \<rparr>],
       missingSigners = Some [''0xBB''],
       tx_id = ''multisig_0xS_0x01'', note = None, safe = ''0xS'' \<rparr>"

definition sampleSafes :: "SafeAddress list" where
  "sampleSafes = [\<lparr> SafeAddress.address = ''0xS'', SafeAddress.chain = mainnet \<rparr>]"

text \<open>A service on which no wallet has a queued transaction.\<close>

definition idleNet :: Network where
  "idleNet =
     \<lparr> getQueued = (\<lambda>a c. Some []), getSafe = (\<lambda>a c. None), getDetails = (\<lambda>i c. None) \<rparr>"

definition sampleConfig :: "NotificationConfig list \<Rightarrow> SafeWalletMonitorConfig" where
  "sampleConfig channels =
     \<lparr> safes = sampleSafes, signers = [], formatOptions = pendingOnly,
       notifications = channels, debug = None \<rparr>"

definition emptyConfig :: SafeWalletMonitorConfig where
  "emptyConfig =
     \<lparr> safes = [], signers = [], formatOptions = pendingOnly,
       notifications = [Console True None], debug = None \<rparr>"

definition sampleData :: QueuedTransactionData where
  "sampleData =
     \<lparr> chain = mainnet, address = ''0xS'', transactions = [fetchedTx], safeInfo = None,
       safeUrl = ''https://app.safe.global/home?safe=eth:0xS'' \<rparr>"

definition sampleMessages :: "string list" where
  "sampleMessages =
     ['' MAINNET - Tx 15  2/3\<newline>'',
      iconLink @ '' Safe URL: https://app.safe.global/home?safe=eth:0xS\<newline>'',
      ''   '' @ bullet @ '' 0xbb: 1 signature needed'',
      ''\<newline>\<newline>'']"

definition sampleResult :: SafeWalletMonitorResult where
  "sampleResult =
     \<lparr> totalTransactions = 1, messages = sampleMessages, signerSummary = [(''0xbb'', 1)],
       rawData = [sampleData] \<rparr>"

text \<open>A wallet whose single transaction names the same signer twice, in two spellings.\<close>

definition repeatedTx :: QueuedSafeTransaction where
  "repeatedTx =
     \<lparr> nonce = 4, signedCount = 0, confirmationsRequired = 1, confirmations = [],
       missingSigners = Some [''0xAB'', ''0xab''],
       tx_id = ''multisig_0xR_0x04'', note = None, safe = ''0xR'' \<rparr>"

definition repeatedData :: QueuedTransactionData where
  "repeatedData =
     \<lparr> chain = mainnet, address = ''0xR'', transactions = [repeatedTx], safeInfo = None,
       safeUrl = ''https://app.safe.global/home?safe=eth:0xR'' \<rparr>"

text \<open>The options object \<open>{}\<close>.\<close>

definition noOptions :: FormatOptions where
  "noOptions =
     \<lparr> showConfirmedSigner = None, showPendingSigner = None, showStatusIcon = None,
       showChainIcon = None, showTxNote = None \<rparr>"

text \<open>The defaults that the comments of \<open>FormatOptions\<close> document, written out.\<close>

definition documentedDefaults :: FormatOptions where
  "documentedDefaults =
     \<lparr> showConfirmedSigner = Some False, showPendingSigner = Some True,
       showStatusIcon = Some False, showChainIcon = Some True, showTxNote = Some True \<rparr>"

text \<open>Options with the status icon and the chain icon enabled.\<close>

definition statusOptions :: FormatOptions where
  "statusOptions =
     \<lparr> showConfirmedSigner = None, showPendingSigner = Some True, showStatusIcon = Some True,
       showChainIcon = Some True, showTxNote = None \<rparr>"

definition statusConfig :: SafeWalletMonitorConfig where
  "statusConfig =
     \<lparr> safes = sampleSafes, signers = [], formatOptions = statusOptions,
       notifications = [], debug = None \<rparr>"

definition statusMessages :: "string list" where
  "statusMessages =
     [getChainIcon mainnet @ '' MAINNET - Tx 15 '' @ iconNeedsAttention @ '' 2/3\<newline>'',
      iconLink @ '' Safe URL: https://app.safe.global/home?safe=eth:0xS\<newline>'',
      ''   '' @ bullet @ '' 0xbb: 1 signature needed'',
      ''\<newline>\<newline>'']"

definition statusResult :: SafeWalletMonitorResult where
  "statusResult =
     \<lparr> totalTransactions = 1, messages = statusMessages, signerSummary = [(''0xbb'', 1)],
       rawData = [sampleData] \<rparr>"


section \<open>Evaluation of strings\<close>

lemmas string_eval =
  toLowerCase_def toLowerChar_def toUpperCase_def toUpperChar_def char_of_def bit_Suc_0_iff
  compareAddresses_def

lemma numToString_one: "numToString (Suc 0) = ''1''"
proof -
  have "numToString (Suc 0) = [char_of (48 + Suc 0)]" by (simp add: numToString.simps)
  moreover have "48 + Suc 0 = (49::nat)" by simp
  moreover have "char_of (49::nat) = CHR ''1''" by (simp add: char_of_def bit_Suc_0_iff)
  ultimately show ?thesis by simp
qed

lemma numToString_2: "numToString 2 = ''2''"
  by (simp add: numToString.simps char_of_def bit_Suc_0_iff)

lemma numToString_3: "numToString 3 = ''3''"
  by (simp add: numToString.simps char_of_def bit_Suc_0_iff)

lemma numToString_15: "numToString 15 = ''15''"
  by (simp add: numToString.simps char_of_def bit_Suc_0_iff)

section \<open>The readiness tier\<close>

lemma bitLength_le: "n < 2 ^ k \<Longrightarrow> bitLength n \<le> k"
proof (induction n arbitrary: k rule: bitLength.induct)
  case (1 n)
  show ?case
  proof (cases "n = 0")
    case True
    then show ?thesis by (simp add: bitLength.simps)
  next
    case False
    then obtain j where k: "k = Suc j" using 1(2) by (cases k) auto
    then have "n div 2 < 2 ^ j" using 1(2) by auto
    then have "bitLength (n div 2) \<le> j" using 1(1) False by simp
    then show ?thesis using False k by (subst bitLength.simps) simp
  qed
qed

lemma roundSignificand_lower:
  "N < roundSignificand N + 2 ^ (bitLength N - 53)"
proof (cases "bitLength N \<le> 53")
  case True
  then show ?thesis by (simp add: roundSignificand_def)
next
  case False
  define s where "s = bitLength N - 53"
  have "N = N div 2 ^ s * 2 ^ s + N mod 2 ^ s"
    using div_mult_mod_eq [of N "2 ^ s"] by simp
  moreover have "N mod 2 ^ s < 2 ^ s" by simp
  ultimately have a: "N < N div 2 ^ s * 2 ^ s + 2 ^ s" by linarith
  have "N div 2 ^ s * 2 ^ s \<le> roundSignificand N"
    using False by (simp add: roundSignificand_def Let_def s_def)
  then show ?thesis using a unfolding s_def by linarith
qed

lemma roundSignificand_upper:
  assumes "N \<le> m * 2 ^ 53" and "bitLength N \<le> 106"
  shows "roundSignificand N \<le> m * 2 ^ 53"
proof (cases "bitLength N \<le> 53")
  case True
  then show ?thesis using assms by (simp add: roundSignificand_def)
next
  case False
  define s where "s = bitLength N - 53"
  have s: "1 \<le> s" "s \<le> 53" using False assms(2) by (auto simp: s_def)
  define m' where "m' = m * 2 ^ (53 - s)"
  have m': "m * 2 ^ 53 = m' * 2 ^ s"
    using s by (simp add: m'_def power_add [symmetric])
  define q where "q = N div 2 ^ s"
  define r where "r = N mod 2 ^ s"
  have N: "N = q * 2 ^ s + r"
    using div_mult_mod_eq [of N "2 ^ s"] by (simp add: q_def r_def)
  have rs: "roundSignificand N =
      (if r < 2 ^ (s - 1) \<or> (r = 2 ^ (s - 1) \<and> even q) then q * 2 ^ s else (q + 1) * 2 ^ s)"
    using False by (simp add: roundSignificand_def Let_def s_def q_def r_def)
  have qm: "q \<le> m'" using assms(1) unfolding m' q_def
    by (metis div_le_mono div_mult_self_is_m zero_less_numeral zero_less_power)
  show ?thesis
  proof (cases "r = 0")
    case True
    then have "roundSignificand N = q * 2 ^ s" using rs by simp
    then show ?thesis using qm m' by simp
  next
    case False
    have "q < m'"
    proof (rule ccontr)
      assume "\<not> q < m'"
      then have "q = m'" using qm by simp
      then have "N > m' * 2 ^ s" using N False by simp
      then show False using assms(1) m' by simp
    qed
    then have "q + 1 \<le> m'" by simp
    then have "(q + 1) * 2 ^ s \<le> m' * 2 ^ s" by (rule mult_le_mono1)
    moreover
    have "q * 2 ^ s \<le> m' * 2 ^ s" using qm by (rule mult_le_mono1)
    ultimately show ?thesis unfolding rs m' by simp
  qed
qed

text \<open>
  Below \<open>2\<^sup>4\<^sup>9\<close> the rounding of the product never crosses an integer: the ceiling of
  the double product is the ceiling of the exact seven tenths.
\<close>

lemma times0_7_ceiling:
  assumes T: "T < 2 ^ 49"
  shows "\<lceil>times0_7 T\<rceil> = \<lceil>(of_nat T :: rat) * 7 / 10\<rceil>"
proof -
  define N where "N = T * 6305039478318694"
  define R where "R = roundSignificand N"
  define c where "c = (7 * T + 9) div 10"
  have c1: "7 * T \<le> 10 * c" and c2: "10 * c \<le> 7 * T + 9"
    unfolding c_def by presburger+
  have N10: "10 * N + 4 * T = 7 * T * 2 ^ 53" unfolding N_def by simp
  have "N < 2 ^ 102" using T unfolding N_def by simp
  then have bl: "bitLength N \<le> 102" by (rule bitLength_le)
  have "N \<le> c * 2 ^ 53" using N10 c1 by simp
  then have up: "R \<le> c * 2 ^ 53"
    unfolding R_def using bl by (intro roundSignificand_upper) simp_all
  have "(2::nat) ^ (bitLength N - 53) \<le> 2 ^ 49"
    using bl by (intro power_increasing) simp_all
  then have lo0: "N < R + 2 ^ 49"
    using roundSignificand_lower [of N] unfolding R_def by linarith
  have lo: "c * 2 ^ 53 < R + 2 ^ 53 \<or> T = 0"
    using lo0 N10 c2 T by simp
  have eval: "times0_7 T = of_nat R / 2 ^ 53"
    by (simp add: times0_7_def R_def N_def)
  show ?thesis
  proof (cases "T = 0")
    case True
    then show ?thesis
      by (simp add: times0_7_def roundSignificand_def bitLength.simps)
  next
    case False
    then have lo': "c * 2 ^ 53 < R + 2 ^ 53" using lo by simp
    have "(of_nat (c * 2 ^ 53) :: rat) < of_nat (R + 2 ^ 53)"
      using lo' by (simp only: of_nat_less_iff)
    then have l1: "(of_nat c :: rat) - 1 < of_nat R / 2 ^ 53"
      by (simp add: field_simps)
    have "(of_nat R :: rat) \<le> of_nat (c * 2 ^ 53)"
      using up by (simp only: of_nat_le_iff)
    then have l2: "(of_nat R :: rat) / 2 ^ 53 \<le> of_nat c"
      by (simp add: field_simps)
    have A: "\<lceil>times0_7 T\<rceil> = int c"
      unfolding eval using l1 l2 by (intro ceiling_unique) simp_all
    have "10 * c < 7 * T + 10" using c2 by simp
    then have "(of_nat (10 * c) :: rat) < of_nat (7 * T + 10)"
      by (simp only: of_nat_less_iff)
    then have r1: "(of_nat c :: rat) - 1 < of_nat T * 7 / 10"
      by (simp add: field_simps)
    have "(of_nat (7 * T) :: rat) \<le> of_nat (10 * c)"
      using c1 by (simp only: of_nat_le_iff)
    then have r2: "(of_nat T :: rat) * 7 / 10 \<le> of_nat c"
      by (simp add: field_simps)
    have B: "\<lceil>(of_nat T :: rat) * 7 / 10\<rceil> = int c"
      using r1 r2 by (intro ceiling_unique) simp_all
    show ?thesis using A B by simp
  qed
qed

lemma seven_tenths_le: "\<lceil>(of_nat T :: rat) * 7 / 10\<rceil> \<le> int T"
proof -
  have "(of_nat T :: rat) * 7 / 10 \<le> of_int (int T)" by simp
  then show ?thesis by (simp only: ceiling_le_iff)
qed

lemma icons_distinct:
  "iconReady \<noteq> iconNearlyReady" "iconReady \<noteq> iconNeedsAttention"
  "iconNearlyReady \<noteq> iconNeedsAttention"
  by (simp_all add: iconReady_def iconNearlyReady_def iconNeedsAttention_def)

text \<open>
  C1, as the program has it. For a threshold below \<open>2\<^sup>4\<^sup>9\<close>, where the
  double-precision product has the ceiling of the exact one, the readiness tier depends on
  \<open>signedCount\<close> and \<open>confirmationsRequired\<close> only: it is ready (the medal)
  exactly when the count reaches the threshold, nearly ready (the memo) exactly when the
  count reaches the ceiling of seven tenths of the threshold, taken over the rationals,
  without reaching the threshold, and needs attention (the warning sign) exactly when the
  count is below that ceiling.
\<close>

theorem C1_readiness_tier:
  assumes "required < 2 ^ 49"
  shows "(getStatusIcon confirmed required = iconReady \<longleftrightarrow> confirmed \<ge> required)
       \<and> (getStatusIcon confirmed required = iconNearlyReady \<longleftrightarrow>
            int confirmed \<ge> \<lceil>(of_nat required :: rat) * 7 / 10\<rceil> \<and> confirmed < required)
       \<and> (getStatusIcon confirmed required = iconNeedsAttention \<longleftrightarrow>
            int confirmed < \<lceil>(of_nat required :: rat) * 7 / 10\<rceil>)"
proof -
  have c: "\<lceil>times0_7 required\<rceil> = \<lceil>(of_nat required :: rat) * 7 / 10\<rceil>"
    using assms by (rule times0_7_ceiling)
  have le: "\<lceil>(of_nat required :: rat) * 7 / 10\<rceil> \<le> int required"
    by (rule seven_tenths_le)
  show ?thesis
    unfolding getStatusIcon_def c using le icons_distinct
    by (auto simp del: of_nat_mult)
qed

theorem C1_readiness_tier_witness:
  "(3::nat) < 2 ^ 49 \<and> getStatusIcon 2 3 = iconNeedsAttention
     \<and> getStatusIcon 3 3 = iconReady \<and> getStatusIcon 7 10 = iconNearlyReady"
proof -
  have a: "\<lceil>(of_nat 3 :: rat) * 7 / 10\<rceil> = 3" by (simp add: ceiling_eq_iff)
  have b: "\<lceil>(of_nat 10 :: rat) * 7 / 10\<rceil> = 7" by simp
  show ?thesis
    using C1_readiness_tier [of 3 2] C1_readiness_tier [of 3 3] C1_readiness_tier [of 10 7] a b
    by simp
qed

lemma bitLength_large: "bitLength 7098843361278140943376880081302 = 103"
  by (simp add: bitLength.simps)

lemma times0_7_large: "times0_7 1125899906842633 = 788129934789843"
  by (simp add: times0_7_def roundSignificand_def bitLength_large Let_def)

text \<open>
  At the threshold 1125899906842633, above \<open>2\<^sup>5\<^sup>0\<close>, the double product is
  788129934789843 exactly, below the exact seven tenths: with 788129934789843 signatures
  the icon is the memo, though the count is below the ceiling 788129934789844 of the
  exact product.
\<close>

theorem C1_readiness_tier_counterexample:
  "getStatusIcon 788129934789843 1125899906842633 = iconNearlyReady
   \<and> int 788129934789843 < \<lceil>(of_nat 1125899906842633 :: rat) * 7 / 10\<rceil>"
proof -
  have a: "getStatusIcon 788129934789843 1125899906842633 = iconNearlyReady"
    by (simp add: getStatusIcon_def times0_7_large)
  have "(788129934789843 :: rat) < of_nat 1125899906842633 * 7 / 10" by simp
  then have b: "int 788129934789843 < \<lceil>(of_nat 1125899906842633 :: rat) * 7 / 10\<rceil>"
    by (simp add: less_ceiling_iff)
  show ?thesis using a b by blast
qed

section \<open>The signed and unsigned lists\<close>


lemma signerLists_fallback:
  "missingSigners tx = None \<or> missingSigners tx = Some [] \<Longrightarrow>
   signerLists tx safeOwners =
     (filter (\<lambda>w. toLowerCase w \<in> set (map (\<lambda>c. toLowerCase (owner c)) (confirmations tx)))
        safeOwners,
      filter (\<lambda>w. toLowerCase w \<notin> set (map (\<lambda>c. toLowerCase (owner c)) (confirmations tx)))
        safeOwners)"
  by (auto simp: signerLists_def)





text \<open>
  C9. When \<open>missingSigners\<close> is absent or empty, the signed list is the owners that equal
  the owner of some confirmation under case-insensitive comparison and the unsigned list
  is the other owners: together they are all the owners, and they share none.
\<close>

theorem C9_fallback_partition:
  assumes "missingSigners tx = None \<or> missingSigners tx = Some []"
  shows "set (fst (signerLists tx safeOwners)) \<union> set (snd (signerLists tx safeOwners))
           = set safeOwners
       \<and> set (fst (signerLists tx safeOwners)) \<inter> set (snd (signerLists tx safeOwners)) = {}
       \<and> fst (signerLists tx safeOwners) =
           filter (\<lambda>w. \<exists>c \<in> set (confirmations tx). compareAddresses w (owner c)) safeOwners
       \<and> snd (signerLists tx safeOwners) =
           filter (\<lambda>w. \<not> (\<exists>c \<in> set (confirmations tx). compareAddresses w (owner c))) safeOwners"
proof -
  have l: "signerLists tx safeOwners =
      (filter (\<lambda>w. \<exists>c \<in> set (confirmations tx). compareAddresses w (owner c)) safeOwners,
       filter (\<lambda>w. \<not> (\<exists>c \<in> set (confirmations tx). compareAddresses w (owner c))) safeOwners)"
    unfolding signerLists_fallback [OF assms, of safeOwners]
    by (auto simp: compareAddresses_def intro!: filter_cong)
  show ?thesis unfolding l by auto
qed

theorem C9_fallback_partition_witness:
  "(missingSigners confirmedTx = None \<or> missingSigners confirmedTx = Some [])
   \<and> signerLists confirmedTx sampleOwners = ([''0xaa''], [''0xbb'', ''0xCC''])
   \<and> set [''0xaa''] \<union> set [''0xbb'', ''0xCC''] = set sampleOwners"
proof -
  have h: "missingSigners confirmedTx = None \<or> missingSigners confirmedTx = Some []"
    by (simp add: confirmedTx_def)
  have e: "filter (\<lambda>w. \<exists>c \<in> set (confirmations confirmedTx). compareAddresses w (owner c))
             sampleOwners = [''0xaa'']"
    by (simp add: sampleOwners_def confirmedTx_def string_eval)
  have e': "filter (\<lambda>w. \<not> (\<exists>c \<in> set (confirmations confirmedTx). compareAddresses w (owner c)))
             sampleOwners = [''0xbb'', ''0xCC'']"
    by (simp add: sampleOwners_def confirmedTx_def string_eval)
  from C9_fallback_partition [OF h, of sampleOwners]
  show ?thesis using h e e' by (auto simp: prod_eq_iff sampleOwners_def)
qed

section \<open>Conversion of the raw records\<close>

lemma numToString_digit: "n < 10 \<Longrightarrow> numToString n = [char_of (48 + n)]"
  by (simp add: numToString.simps)

lemma upt_2: "[0..<2] = [0, Suc 0]"
  by (simp add: upt_rec)

lemma convert_sampleRecord:
  "convertToEnhancedFormat sampleRecord ''0xS'' = Inr (Some fetchedTx)"
  by (simp add: convertToEnhancedFormat_def sampleRecord_def fetchedTx_def Let_def upt_2
      numToString_digit char_of_def bit_Suc_0_iff)

lemma fetch_sample:
  "fst (fetchQueuedTransactions sampleNet ''0xS'' mainnet) = [fetchedTx]"
  using convert_sampleRecord
  by (simp add: fetchQueuedTransactions_def sampleNet_def labelRecord_def sampleRecord_def)

lemma convertToEnhancedFormat_Some:
  assumes "convertToEnhancedFormat item a = Inr (Some q)"
  shows "type item = TRANSACTION
       \<and> (\<exists>tx. transaction item = Some tx
              \<and> signedCount q = confirmationsSubmitted (executionInfo tx)
              \<and> missingSigners q = Some (map value (ExecutionInfo.missingSigners (executionInfo tx))))
       \<and> map owner (confirmations q) = map (\<lambda>i. ''signed_'' @ numToString i) [0..<signedCount q]"
  using assms
  by (auto simp: convertToEnhancedFormat_def Let_def comp_def split: option.splits if_splits)

lemma convertAll_member:
  "convertAll items a = Inr ts \<Longrightarrow> q \<in> set (dropNull ts) \<Longrightarrow>
   \<exists>item \<in> set items. convertToEnhancedFormat item a = Inr (Some q)"
proof (induction items arbitrary: ts)
  case Nil
  then show ?case by simp
next
  case (Cons item items)
  from Cons.prems(1) obtain t ts' where
    t: "convertToEnhancedFormat item a = Inr t" and
    ts': "convertAll items a = Inr ts'" and ts: "ts = t # ts'"
    by (auto split: sum.splits)
  show ?case
  proof (cases t)
    case None
    then have "q \<in> set (dropNull ts')" using Cons.prems(2) ts by simp
    then show ?thesis using Cons.IH [OF ts'] by auto
  next
    case (Some x)
    then have "q = x \<or> q \<in> set (dropNull ts')" using Cons.prems(2) ts by simp
    then show ?thesis using Cons.IH [OF ts'] t Some by auto
  qed
qed

lemma fetchQueuedTransactions_member:
  assumes "q \<in> set (fst (fetchQueuedTransactions net a c))"
  shows "\<exists>results item. getQueued net a c = Some results \<and> item \<in> set results
           \<and> convertToEnhancedFormat item a = Inr (Some q)"
proof (cases "getQueued net a c")
  case None
  then show ?thesis using assms by (simp add: fetchQueuedTransactions_def)
next
  case (Some results)
  show ?thesis
  proof (cases "convertAll (filter (\<lambda>item. type item = TRANSACTION) results) a")
    case (Inl e)
    then show ?thesis using assms Some by (simp add: fetchQueuedTransactions_def)
  next
    case (Inr ts)
    then have "q \<in> set (dropNull ts)"
      using assms Some by (simp add: fetchQueuedTransactions_def)
    from convertAll_member [OF Inr this] Some show ?thesis by auto
  qed
qed

text \<open>
  C10. Every queued transaction that \<open>fetchQueuedTransactions\<close> returns comes from a raw
  record of type TRANSACTION: its \<open>signedCount\<close> is the \<open>confirmationsSubmitted\<close> of
  the record, its confirmations are \<open>signedCount\<close> placeholders whose owners are
  \<open>signed_0\<close>, \<open>signed_1\<close> and so on, and its \<open>missingSigners\<close> is present (the
  values of the record's list, possibly none). A record of any other type is converted to
  \<open>null\<close>.
\<close>

theorem C10_converted_transactions:
  "(q \<in> set (fst (fetchQueuedTransactions net a c)) \<longrightarrow>
      (\<exists>results item tx. getQueued net a c = Some results \<and> item \<in> set results
         \<and> type item = TRANSACTION \<and> transaction item = Some tx
         \<and> signedCount q = confirmationsSubmitted (executionInfo tx)
         \<and> missingSigners q = Some (map value (ExecutionInfo.missingSigners (executionInfo tx))))
      \<and> length (confirmations q) = signedCount q
      \<and> map owner (confirmations q) = map (\<lambda>i. ''signed_'' @ numToString i) [0..<signedCount q])
   \<and> (type item' \<noteq> TRANSACTION \<longrightarrow> convertToEnhancedFormat item' a = Inr None)"
proof (intro conjI impI)
  assume q: "q \<in> set (fst (fetchQueuedTransactions net a c))"
  from fetchQueuedTransactions_member [OF q] obtain results item where
    r: "getQueued net a c = Some results" "item \<in> set results" and
    cv: "convertToEnhancedFormat item a = Inr (Some q)"
    by auto
  note p = convertToEnhancedFormat_Some [OF cv]
  show "\<exists>results item tx. getQueued net a c = Some results \<and> item \<in> set results
         \<and> type item = TRANSACTION \<and> transaction item = Some tx
         \<and> signedCount q = confirmationsSubmitted (executionInfo tx)
         \<and> missingSigners q = Some (map value (ExecutionInfo.missingSigners (executionInfo tx)))"
    using r p by auto
  show o: "map owner (confirmations q) = map (\<lambda>i. ''signed_'' @ numToString i) [0..<signedCount q]"
    using p by simp
  have "length (map owner (confirmations q)) = signedCount q"
    unfolding o by simp
  then show "length (confirmations q) = signedCount q" by simp
next
  assume "type item' \<noteq> TRANSACTION"
  then show "convertToEnhancedFormat item' a = Inr None"
    by (simp add: convertToEnhancedFormat_def split: option.splits)
qed

theorem C10_converted_transactions_witness:
  "fetchedTx \<in> set (fst (fetchQueuedTransactions sampleNet ''0xS'' mainnet))
   \<and> type labelRecord \<noteq> TRANSACTION
   \<and> signedCount fetchedTx = 2
   \<and> map owner (confirmations fetchedTx) = [''signed_0'', ''signed_1'']
   \<and> missingSigners fetchedTx = Some [''0xBB'']
   \<and> convertToEnhancedFormat labelRecord ''0xS'' = Inr None"
proof -
  have h: "fetchedTx \<in> set (fst (fetchQueuedTransactions sampleNet ''0xS'' mainnet))"
    by (simp add: fetch_sample)
  have l: "type labelRecord \<noteq> TRANSACTION" by (simp add: labelRecord_def)
  from C10_converted_transactions [of fetchedTx sampleNet "''0xS''" mainnet labelRecord]
  show ?thesis using h l by (simp add: fetchedTx_def)
qed

section \<open>The aggregator\<close>

lemma addNote_forget: "(fst (addNote net c tx))\<lparr>note := None\<rparr> = tx\<lparr>note := None\<rparr>"
  by (simp add: addNote_def split: prod.splits option.splits)

lemma fetchNotes_forget:
  "map (\<lambda>t. t\<lparr>note := None\<rparr>) (fst (fetchNotes net c txs)) = map (\<lambda>t. t\<lparr>note := None\<rparr>) txs"
proof (induction txs)
  case Nil
  then show ?case by simp
next
  case (Cons tx txs)
  obtain tx' ev where a: "addNote net c tx = (tx', ev)" by (cases "addNote net c tx")
  obtain txs' evs where n: "fetchNotes net c txs = (txs', evs)" by (cases "fetchNotes net c txs")
  have "tx'\<lparr>note := None\<rparr> = tx\<lparr>note := None\<rparr>"
    using addNote_forget [of net c tx] a by simp
  moreover have "map (\<lambda>t. t\<lparr>note := None\<rparr>) txs' = map (\<lambda>t. t\<lparr>note := None\<rparr>) txs"
    using Cons.IH n by simp
  ultimately show ?case using a n by simp
qed

lemma fetchSafe_Some:
  assumes "fst (fetchSafe net options c a) = Some d"
  shows "chain d = c \<and> address d = a
       \<and> fst (fetchQueuedTransactions net a c) \<noteq> []
       \<and> map (\<lambda>t. t\<lparr>note := None\<rparr>) (transactions d) =
           map (\<lambda>t. t\<lparr>note := None\<rparr>) (fst (fetchQueuedTransactions net a c))
       \<and> safeInfo d =
           (if truthy (showConfirmedSigner options) \<or> truthy (showPendingSigner options)
            then fst (fetchSafeInfo net a c) else None)"
proof -
  obtain txs ev1 where q: "fetchQueuedTransactions net a c = (txs, ev1)"
    by (cases "fetchQueuedTransactions net a c")
  obtain info ev2 where i: "fetchSafeInfo net a c = (info, ev2)"
    by (cases "fetchSafeInfo net a c")
  obtain txs' ev3 where n: "fetchNotes net c txs = (txs', ev3)"
    by (cases "fetchNotes net c txs")
  have f: "map (\<lambda>t. t\<lparr>note := None\<rparr>) txs' = map (\<lambda>t. t\<lparr>note := None\<rparr>) txs"
    using fetchNotes_forget [of net c txs] n by simp
  show ?thesis
    using assms q i n f by (auto simp: fetchSafe_def split: if_splits)
qed

lemma fetchSafe_nonempty:
  assumes "fst (fetchQueuedTransactions net a c) \<noteq> []"
  shows "\<exists>d. fst (fetchSafe net options c a) = Some d"
  using assms by (auto simp: fetchSafe_def split: prod.splits)

lemma fetchAddresses_mem:
  "d \<in> set (fst (fetchAddresses net options c as)) \<longleftrightarrow>
     (\<exists>a \<in> set as. fst (fetchSafe net options c a) = Some d)"
  by (induction as) (auto split: prod.splits option.splits)

lemma fetchChains_mem:
  "d \<in> set (fst (fetchChains net options g)) \<longleftrightarrow>
     (\<exists>c as a. (c, as) \<in> set g \<and> a \<in> set as \<and> fst (fetchSafe net options c a) = Some d)"
proof (induction g)
  case Nil
  then show ?case by simp
next
  case (Cons p g)
  obtain c as where p: "p = (c, as)" by (cases p)
  have step: "fst (fetchChains net options (p # g)) =
      fst (fetchAddresses net options c as) @ fst (fetchChains net options g)"
    by (simp add: p split: prod.splits)
  show ?case
    unfolding step set_append Un_iff Cons.IH fetchAddresses_mem
    by (auto simp: p)
qed

text \<open>The pairs of a chain and an address that the grouping holds.\<close>

lemma addSafe_mem:
  "(\<exists>as. (c, as) \<in> set (addSafe acc s) \<and> a \<in> set as) \<longleftrightarrow>
   (c = SafeAddress.chain s \<and> a = SafeAddress.address s)
     \<or> (\<exists>as. (c, as) \<in> set acc \<and> a \<in> set as)"
proof -
  define k where "k = SafeAddress.chain s"
  define x where "x = SafeAddress.address s"
  define acc' where "acc' = (if map_of acc k = None then acc @ [(k, [])] else acc)"
  have add: "addSafe acc s = map (\<lambda>(c, as). if c = k then (c, as @ [x]) else (c, as)) acc'"
    unfolding addSafe_def acc'_def k_def x_def Let_def ..
  have key: "\<exists>as0. (k, as0) \<in> set acc'"
  proof (cases "map_of acc k")
    case None
    then show ?thesis by (auto simp: acc'_def)
  next
    case (Some as0)
    then have "(k, as0) \<in> set acc" by (rule map_of_SomeD)
    then show ?thesis using Some by (auto simp: acc'_def)
  qed
  have old: "(\<exists>as. (c, as) \<in> set acc' \<and> a \<in> set as) \<longleftrightarrow> (\<exists>as. (c, as) \<in> set acc \<and> a \<in> set as)"
    by (auto simp: acc'_def)
  have mem: "(c, as) \<in> set (addSafe acc s) \<longleftrightarrow>
      (\<exists>as1. (c, as1) \<in> set acc' \<and> as = (if c = k then as1 @ [x] else as1))" for as
    unfolding add by (force split: if_splits)
  have "(\<exists>as. (c, as) \<in> set (addSafe acc s) \<and> a \<in> set as) \<longleftrightarrow>
        (c = k \<and> a = x) \<or> (\<exists>as. (c, as) \<in> set acc' \<and> a \<in> set as)"
  proof (cases "c = k")
    case True
    have "(\<exists>as. (c, as) \<in> set (addSafe acc s) \<and> a \<in> set as) \<longleftrightarrow>
          (\<exists>as1. (k, as1) \<in> set acc' \<and> (a \<in> set as1 \<or> a = x))"
      unfolding mem using True by auto
    then show ?thesis using True key by auto
  next
    case False
    then show ?thesis unfolding mem by auto
  qed
  then show ?thesis unfolding old k_def x_def .
qed

lemma foldl_addSafe_mem:
  "(\<exists>as. (c, as) \<in> set (foldl addSafe acc sfs) \<and> a \<in> set as) \<longleftrightarrow>
   (\<exists>as. (c, as) \<in> set acc \<and> a \<in> set as)
     \<or> (\<exists>s \<in> set sfs. SafeAddress.chain s = c \<and> SafeAddress.address s = a)"
proof (induction sfs arbitrary: acc)
  case Nil
  then show ?case by simp
next
  case (Cons s sfs)
  show ?case
    unfolding foldl_Cons Cons.IH [of "addSafe acc s"] addSafe_mem by auto
qed

lemma safesByChain_mem:
  "(\<exists>as. (c, as) \<in> set (safesByChain sfs) \<and> a \<in> set as) \<longleftrightarrow>
   (\<exists>s \<in> set sfs. SafeAddress.chain s = c \<and> SafeAddress.address s = a)"
  unfolding safesByChain_def foldl_addSafe_mem by simp

lemma fetchAllQueuedTransactions_mem:
  "d \<in> set (fst (fetchAllQueuedTransactions net sfs options)) \<longleftrightarrow>
     (\<exists>s \<in> set sfs.
        fst (fetchSafe net options (SafeAddress.chain s) (SafeAddress.address s)) = Some d)"
proof -
  have "d \<in> set (fst (fetchAllQueuedTransactions net sfs options)) \<longleftrightarrow>
        (\<exists>c a. (\<exists>as. (c, as) \<in> set (safesByChain sfs) \<and> a \<in> set as)
               \<and> fst (fetchSafe net options c a) = Some d)"
    unfolding fetchAllQueuedTransactions_def fetchChains_mem by auto
  then show ?thesis unfolding safesByChain_mem by auto
qed

section \<open>The events of a run\<close>

lemma fetchNotes_events: "list_all isRequest (snd (fetchNotes net c txs))"
proof (induction txs)
  case Nil
  then show ?case by simp
next
  case (Cons tx txs)
  obtain tx' ev where a: "addNote net c tx = (tx', ev)" by (cases "addNote net c tx")
  obtain txs' evs where n: "fetchNotes net c txs = (txs', evs)" by (cases "fetchNotes net c txs")
  have "list_all isRequest ev"
    using a by (auto simp: addNote_def fetchTransactionDetails_def)
  then show ?case using Cons.IH a n by simp
qed

lemma fetchSafe_events: "list_all isRequest (snd (fetchSafe net options c a))"
proof -
  obtain txs ev1 where q: "fetchQueuedTransactions net a c = (txs, ev1)"
    by (cases "fetchQueuedTransactions net a c")
  obtain info ev2 where i: "fetchSafeInfo net a c = (info, ev2)"
    by (cases "fetchSafeInfo net a c")
  obtain txs' ev3 where n: "fetchNotes net c txs = (txs', ev3)"
    by (cases "fetchNotes net c txs")
  have "list_all isRequest ev1" using q by (auto simp: fetchQueuedTransactions_def)
  moreover have "list_all isRequest ev2" using i by (auto simp: fetchSafeInfo_def)
  moreover have "list_all isRequest ev3" using fetchNotes_events [of net c txs] n by simp
  ultimately show ?thesis using q i n by (simp add: fetchSafe_def)
qed

lemma fetchAddresses_events: "list_all isRequest (snd (fetchAddresses net options c as))"
proof (induction as)
  case Nil
  then show ?case by simp
next
  case (Cons a as)
  obtain r ev where f: "fetchSafe net options c a = (r, ev)"
    by (cases "fetchSafe net options c a")
  obtain rs evs where g: "fetchAddresses net options c as = (rs, evs)"
    by (cases "fetchAddresses net options c as")
  show ?case using Cons.IH fetchSafe_events [of net options c a] f g by simp
qed

lemma fetchChains_events: "list_all isRequest (snd (fetchChains net options g))"
proof (induction g)
  case Nil
  then show ?case by simp
next
  case (Cons p g)
  obtain c as where p: "p = (c, as)" by (cases p)
  obtain rs ev where f: "fetchAddresses net options c as = (rs, ev)"
    by (cases "fetchAddresses net options c as")
  obtain rs' ev' where h: "fetchChains net options g = (rs', ev')"
    by (cases "fetchChains net options g")
  show ?case using Cons.IH fetchAddresses_events [of net options c as] p f h by simp
qed

lemma fetchAllQueuedTransactions_events:
  "list_all isRequest (snd (fetchAllQueuedTransactions net sfs options))"
  unfolding fetchAllQueuedTransactions_def by (rule fetchChains_events)

lemma total_sum:
  "foldl (\<lambda>sum d. sum + length (transactions d)) n data =
     n + sum_list (map (\<lambda>d. length (transactions d)) data)"
  by (induction data arbitrary: n) simp_all

text \<open>The run, unfolded.\<close>

lemma monitorSafeWalletQueue_empty:
  "safes config = [] \<Longrightarrow> monitorSafeWalletQueue net config = (Inl ConfigError, [])"
  by (simp add: monitorSafeWalletQueue_def)

lemma monitorSafeWalletQueue_run:
  fixes net :: Network and config :: SafeWalletMonitorConfig
  assumes "safes config \<noteq> []"
  defines "data \<equiv> fst (fetchAllQueuedTransactions net (safes config) (formatOptions config))"
  defines "out \<equiv> formatTransactionData data (signers config) (formatOptions config)"
  defines "tot \<equiv> foldl (\<lambda>sum d. sum + length (transactions d)) 0 data"
  shows "monitorSafeWalletQueue net config =
     (Inr \<lparr> totalTransactions = tot, messages = fst out, signerSummary = snd out,
            rawData = data \<rparr>,
      snd (fetchAllQueuedTransactions net (safes config) (formatOptions config))
        @ (if tot > 0 \<and> notifications config \<noteq> []
           then Dispatch (notifications config) (join ''\<newline>'' (fst out))
                  # sendNotifications (notifications config) (join ''\<newline>'' (fst out))
           else []))"
  using assms(1) unfolding data_def out_def tot_def
  by (simp add: monitorSafeWalletQueue_def Let_def split: prod.splits)

section \<open>The result of a run\<close>

lemma monitorSafeWalletQueue_Inr:
  assumes "fst (monitorSafeWalletQueue net config) = Inr result"
  shows "safes config \<noteq> []"
    and "rawData result = fst (fetchAllQueuedTransactions net (safes config) (formatOptions config))"
    and "totalTransactions result = sum_list (map (\<lambda>d. length (transactions d)) (rawData result))"
    and "messages result =
           fst (formatTransactionData (rawData result) (signers config) (formatOptions config))"
    and "signerSummary result =
           snd (formatTransactionData (rawData result) (signers config) (formatOptions config))"
proof -
  show ne: "safes config \<noteq> []"
    using assms monitorSafeWalletQueue_empty [of config net] by auto
  have r: "result =
      \<lparr> totalTransactions = foldl (\<lambda>sum d. sum + length (transactions d)) 0
           (fst (fetchAllQueuedTransactions net (safes config) (formatOptions config))),
        messages = fst (formatTransactionData
           (fst (fetchAllQueuedTransactions net (safes config) (formatOptions config)))
           (signers config) (formatOptions config)),
        signerSummary = snd (formatTransactionData
           (fst (fetchAllQueuedTransactions net (safes config) (formatOptions config)))
           (signers config) (formatOptions config)),
        rawData = fst (fetchAllQueuedTransactions net (safes config) (formatOptions config)) \<rparr>"
    using assms unfolding monitorSafeWalletQueue_run [OF ne] by simp
  show "rawData result = fst (fetchAllQueuedTransactions net (safes config) (formatOptions config))"
    by (subst r) simp
  then show "totalTransactions result = sum_list (map (\<lambda>d. length (transactions d)) (rawData result))"
    by (subst r) (simp add: total_sum)
  show "messages result =
           fst (formatTransactionData (rawData result) (signers config) (formatOptions config))"
    by (subst (1 2) r) simp
  show "signerSummary result =
           snd (formatTransactionData (rawData result) (signers config) (formatOptions config))"
    by (subst (1 2) r) simp
qed

text \<open>
  C6. Every entry of \<open>rawData\<close> has at least one transaction, and belongs to a monitored
  wallet whose queued-transaction request was answered and gave at least one
  transaction: a wallet whose fetch is empty, or fails, has no entry.
\<close>

theorem C6_no_empty_wallet:
  assumes "fst (monitorSafeWalletQueue net config) = Inr result"
    and "d \<in> set (rawData result)"
  shows "transactions d \<noteq> []
       \<and> fst (fetchQueuedTransactions net (address d) (chain d)) \<noteq> []
       \<and> getQueued net (address d) (chain d) \<noteq> None
       \<and> (\<exists>s \<in> set (safes config).
             SafeAddress.address s = address d \<and> SafeAddress.chain s = chain d)"
proof -
  from assms monitorSafeWalletQueue_Inr(2) [OF assms(1)]
  have "d \<in> set (fst (fetchAllQueuedTransactions net (safes config) (formatOptions config)))"
    by simp
  then obtain s where s: "s \<in> set (safes config)" and
    f: "fst (fetchSafe net (formatOptions config) (SafeAddress.chain s) (SafeAddress.address s)) = Some d"
    unfolding fetchAllQueuedTransactions_mem by auto
  note p = fetchSafe_Some [OF f]
  have q: "fst (fetchQueuedTransactions net (address d) (chain d)) \<noteq> []" using p by simp
  have "length (map (\<lambda>t. t\<lparr>note := None\<rparr>) (transactions d)) =
        length (fst (fetchQueuedTransactions net (address d) (chain d)))"
    using p by simp
  then have t: "transactions d \<noteq> []" using q by auto
  have g: "getQueued net (address d) (chain d) \<noteq> None"
    using q by (auto simp: fetchQueuedTransactions_def split: option.splits)
  show ?thesis using t q g s p by auto
qed

section \<open>The sample run\<close>

lemma sample_fetchSafe:
  "fetchSafe sampleNet pendingOnly mainnet ''0xS'' =
     (Some sampleData, [QueuedRequest ''0xS'' mainnet, SafeInfoRequest ''0xS'' mainnet])"
proof -
  have q: "fetchQueuedTransactions sampleNet ''0xS'' mainnet = ([fetchedTx], [QueuedRequest ''0xS'' mainnet])"
    using fetch_sample by (simp add: prod_eq_iff fetchQueuedTransactions_def)
  have i: "fetchSafeInfo sampleNet ''0xS'' mainnet = (None, [SafeInfoRequest ''0xS'' mainnet])"
    by (simp add: fetchSafeInfo_def sampleNet_def)
  show ?thesis
    by (simp add: fetchSafe_def q i pendingOnly_def truthy_def sampleData_def generateSafeUrl_def)
qed

lemma sample_fetchAll:
  "fetchAllQueuedTransactions sampleNet sampleSafes pendingOnly =
     ([sampleData], [QueuedRequest ''0xS'' mainnet, SafeInfoRequest ''0xS'' mainnet])"
  by (simp add: fetchAllQueuedTransactions_def safesByChain_def sampleSafes_def addSafe_def
      sample_fetchSafe)

lemma sample_message:
  "formatTransactionMessage fetchedTx mainnet [] [] pendingOnly = '' MAINNET - Tx 15  2/3\<newline>''"
  by (simp add: formatTransactionMessage_def headerLine_def noteLine_def signerLines_def
      pendingOnly_def truthy_def fetchedTx_def numToString.simps string_eval)

lemma sample_format:
  "formatTransactionData [sampleData] [] pendingOnly = (sampleMessages, [(''0xbb'', 1)])"
proof -
  have s: "countTransaction [] fetchedTx = [(''0xbb'', 1)]"
    by (simp add: countTransaction_def countSigner_def fetchedTx_def string_eval)
  have l: "summaryLine [] (''0xbb'', Suc 0) = ''   '' @ bullet @ '' 0xbb: 1 signature needed''"
    by (simp add: summaryLine_def getSignerHandle_def shortenAddress_def numToString_one)
  show ?thesis
    by (simp add: formatTransactionData_def safeMessages_def sampleData_def ownersOf_def
        sample_message s l sampleMessages_def)
qed

lemma sample_run:
  "monitorSafeWalletQueue sampleNet (sampleConfig channels) =
     (Inr sampleResult,
      [QueuedRequest ''0xS'' mainnet, SafeInfoRequest ''0xS'' mainnet]
        @ (if channels \<noteq> []
           then Dispatch channels (join ''\<newline>'' sampleMessages)
                  # sendNotifications channels (join ''\<newline>'' sampleMessages)
           else []))"
proof -
  have ne: "safes (sampleConfig channels) \<noteq> []"
    by (simp add: sampleConfig_def sampleSafes_def)
  have t: "transactions sampleData = [fetchedTx]" by (simp add: sampleData_def)
  show ?thesis
    unfolding monitorSafeWalletQueue_run [OF ne]
    by (simp add: sampleConfig_def sample_fetchAll sample_format sampleResult_def t)
qed

theorem C6_no_empty_wallet_witness:
  "fst (monitorSafeWalletQueue sampleNet (sampleConfig [])) = Inr sampleResult
   \<and> sampleData \<in> set (rawData sampleResult)
   \<and> transactions sampleData = [fetchedTx]
   \<and> getQueued sampleNet (address sampleData) (chain sampleData) \<noteq> None"
proof -
  have h: "fst (monitorSafeWalletQueue sampleNet (sampleConfig [])) = Inr sampleResult"
    by (simp add: sample_run)
  have m: "sampleData \<in> set (rawData sampleResult)"
    by (simp add: sampleResult_def)
  from C6_no_empty_wallet [OF h m]
  show ?thesis using h m by (simp add: sampleData_def)
qed

section \<open>A wallet whose ownership request fails\<close>

lemma formatTransactionMessage_no_owners:
  "formatTransactionMessage tx c [] sgs options = headerLine tx c options @ noteLine tx options"
  by (simp add: formatTransactionMessage_def signerLines_def)

lemma formatTransactionData_member:
  assumes "d \<in> set data" and "tx \<in> set (transactions d)"
  shows "formatTransactionMessage tx (chain d) (ownersOf (safeInfo d)) sgs options
           \<in> set (fst (formatTransactionData data sgs options))"
  using assms by (auto simp: formatTransactionData_def safeMessages_def Let_def)

lemma headerLine_text:
  "headerLine tx c options =
     (if truthy (showChainIcon options) then getChainIcon c else [])
       @ '' '' @ toUpperCase (chainString c) @ '' - Tx '' @ numToString (nonce tx) @ '' ''
       @ (if truthy (showStatusIcon options)
          then getStatusIcon (signedCount tx) (confirmationsRequired tx) else [])
       @ '' '' @ numToString (signedCount tx) @ ''/'' @ numToString (confirmationsRequired tx)
       @ ''\<newline>''"
  by (simp add: headerLine_def Let_def)

lemma noteLine_text:
  "noteLine tx options =
     (case note tx of
        Some n \<Rightarrow>
          if truthy (showTxNote options) \<and> n \<noteq> []
          then ''    '' @ iconNearlyReady @ '' Note: '' @ n @ ''\<newline>''
          else []
      | None \<Rightarrow> [])"
  by (simp add: noteLine_def)

lemma getStatusIcon_2_3: "getStatusIcon 2 3 = iconNeedsAttention"
proof -
  have "\<lceil>times0_7 3\<rceil> = \<lceil>(of_nat 3 :: rat) * 7 / 10\<rceil>"
    by (rule times0_7_ceiling) simp
  also have "\<dots> = 3" by (simp add: ceiling_eq_iff)
  finally show ?thesis by (simp add: getStatusIcon_def)
qed

lemma status_fetchAll:
  "fetchAllQueuedTransactions sampleNet sampleSafes statusOptions =
     ([sampleData], [QueuedRequest ''0xS'' mainnet, SafeInfoRequest ''0xS'' mainnet])"
proof -
  have q: "fetchQueuedTransactions sampleNet ''0xS'' mainnet = ([fetchedTx], [QueuedRequest ''0xS'' mainnet])"
    using fetch_sample by (simp add: prod_eq_iff fetchQueuedTransactions_def)
  have i: "fetchSafeInfo sampleNet ''0xS'' mainnet = (None, [SafeInfoRequest ''0xS'' mainnet])"
    by (simp add: fetchSafeInfo_def sampleNet_def)
  have f: "fetchSafe sampleNet statusOptions mainnet ''0xS'' =
     (Some sampleData, [QueuedRequest ''0xS'' mainnet, SafeInfoRequest ''0xS'' mainnet])"
    by (simp add: fetchSafe_def q i statusOptions_def truthy_def sampleData_def generateSafeUrl_def)
  show ?thesis
    by (simp add: fetchAllQueuedTransactions_def safesByChain_def sampleSafes_def addSafe_def f)
qed

lemma status_message:
  "formatTransactionMessage fetchedTx mainnet [] [] statusOptions =
     getChainIcon mainnet @ '' MAINNET - Tx 15 '' @ iconNeedsAttention @ '' 2/3\<newline>''"
proof -
  have c: "signedCount fetchedTx = 2" "confirmationsRequired fetchedTx = 3" "nonce fetchedTx = 15"
    "note fetchedTx = None"
    by (simp_all add: fetchedTx_def)
  have t: "truthy (showChainIcon statusOptions)" "truthy (showStatusIcon statusOptions)"
    by (simp_all add: statusOptions_def truthy_def)
  show ?thesis
    unfolding formatTransactionMessage_no_owners headerLine_text noteLine_text c
    using t by (simp add: getStatusIcon_2_3 numToString_15 numToString_2 numToString_3 string_eval)
qed

lemma status_run:
  "monitorSafeWalletQueue sampleNet statusConfig =
     (Inr statusResult, [QueuedRequest ''0xS'' mainnet, SafeInfoRequest ''0xS'' mainnet])"
proof -
  have ne: "safes statusConfig \<noteq> []"
    by (simp add: statusConfig_def sampleSafes_def)
  have s: "countTransaction [] fetchedTx = [(''0xbb'', 1)]"
    by (simp add: countTransaction_def countSigner_def fetchedTx_def string_eval)
  have l: "summaryLine [] (''0xbb'', Suc 0) = ''   '' @ bullet @ '' 0xbb: 1 signature needed''"
    by (simp add: summaryLine_def getSignerHandle_def shortenAddress_def numToString_one)
  have f: "formatTransactionData [sampleData] [] statusOptions = (statusMessages, [(''0xbb'', 1)])"
    by (simp add: formatTransactionData_def safeMessages_def sampleData_def ownersOf_def
        status_message s l statusMessages_def)
  have t: "transactions sampleData = [fetchedTx]" by (simp add: sampleData_def)
  show ?thesis
    unfolding monitorSafeWalletQueue_run [OF ne]
    by (simp add: statusConfig_def status_fetchAll f statusResult_def t)
qed

text \<open>
  C7. When the ownership request of a monitored wallet fails and its queued-transaction
  fetch gives at least one transaction, the run returns a result in which the wallet has
  an entry without \<open>safeInfo\<close> that keeps the fetched transactions (a note may have been
  attached). The message of each of them is in the messages of the result, and it is the
  header line, with the chain icon when that is enabled, the chain name, the nonce, the
  status icon of the two counts when that is enabled and the two counts, followed by the
  note line when notes are enabled and there is one: no signer line.
\<close>

theorem C7_ownership_failure:
  assumes "s \<in> set (safes config)"
    and "getSafe net (SafeAddress.address s) (SafeAddress.chain s) = None"
    and "fst (fetchQueuedTransactions net (SafeAddress.address s) (SafeAddress.chain s)) \<noteq> []"
  shows "\<exists>result d. fst (monitorSafeWalletQueue net config) = Inr result
       \<and> d \<in> set (rawData result)
       \<and> address d = SafeAddress.address s \<and> chain d = SafeAddress.chain s
       \<and> safeInfo d = None
       \<and> map (\<lambda>t. t\<lparr>note := None\<rparr>) (transactions d) =
           map (\<lambda>t. t\<lparr>note := None\<rparr>)
             (fst (fetchQueuedTransactions net (SafeAddress.address s) (SafeAddress.chain s)))
       \<and> (\<forall>tx \<in> set (transactions d).
             formatTransactionMessage tx (chain d) (ownersOf (safeInfo d)) (signers config)
                 (formatOptions config)
               = (if truthy (showChainIcon (formatOptions config)) then getChainIcon (chain d) else [])
                 @ '' '' @ toUpperCase (chainString (chain d)) @ '' - Tx '' @ numToString (nonce tx)
                 @ '' ''
                 @ (if truthy (showStatusIcon (formatOptions config))
                    then getStatusIcon (signedCount tx) (confirmationsRequired tx) else [])
                 @ '' '' @ numToString (signedCount tx) @ ''/''
                 @ numToString (confirmationsRequired tx) @ ''\<newline>''
                 @ (case note tx of
                      Some n \<Rightarrow>
                        if truthy (showTxNote (formatOptions config)) \<and> n \<noteq> []
                        then ''    '' @ iconNearlyReady @ '' Note: '' @ n @ ''\<newline>''
                        else []
                    | None \<Rightarrow> [])
             \<and> formatTransactionMessage tx (chain d) (ownersOf (safeInfo d)) (signers config)
                 (formatOptions config)
                 \<in> set (messages result))"
proof -
  have ne: "safes config \<noteq> []" using assms(1) by auto
  obtain result where r: "fst (monitorSafeWalletQueue net config) = Inr result"
    unfolding monitorSafeWalletQueue_run [OF ne] by simp
  note R = monitorSafeWalletQueue_Inr [OF r]
  obtain d where
    d: "fst (fetchSafe net (formatOptions config) (SafeAddress.chain s) (SafeAddress.address s)) = Some d"
    using fetchSafe_nonempty [OF assms(3)] by blast
  have mem: "d \<in> set (rawData result)"
    unfolding R(2) fetchAllQueuedTransactions_mem using assms(1) d by blast
  note p = fetchSafe_Some [OF d]
  have "fst (fetchSafeInfo net (SafeAddress.address s) (SafeAddress.chain s)) = None"
    using assms(2) by (simp add: fetchSafeInfo_def)
  then have i: "safeInfo d = None" using p by simp
  have f: "formatTransactionMessage tx (chain d) (ownersOf (safeInfo d)) (signers config)
              (formatOptions config)
            = (if truthy (showChainIcon (formatOptions config)) then getChainIcon (chain d) else [])
                 @ '' '' @ toUpperCase (chainString (chain d)) @ '' - Tx '' @ numToString (nonce tx)
                 @ '' ''
                 @ (if truthy (showStatusIcon (formatOptions config))
                    then getStatusIcon (signedCount tx) (confirmationsRequired tx) else [])
                 @ '' '' @ numToString (signedCount tx) @ ''/''
                 @ numToString (confirmationsRequired tx) @ ''\<newline>''
                 @ (case note tx of
                      Some n \<Rightarrow>
                        if truthy (showTxNote (formatOptions config)) \<and> n \<noteq> []
                        then ''    '' @ iconNearlyReady @ '' Note: '' @ n @ ''\<newline>''
                        else []
                    | None \<Rightarrow> [])" for tx
    unfolding i ownersOf_def option.case formatTransactionMessage_no_owners headerLine_text
      noteLine_text
    by simp
  have m: "formatTransactionMessage tx (chain d) (ownersOf (safeInfo d)) (signers config)
              (formatOptions config) \<in> set (messages result)" if "tx \<in> set (transactions d)" for tx
    using formatTransactionData_member [OF mem that, of "signers config" "formatOptions config"]
    unfolding R(4) .
  show ?thesis
    using r mem p i f m by blast
qed

theorem C7_ownership_failure_witness:
  "\<lparr> SafeAddress.address = ''0xS'', SafeAddress.chain = mainnet \<rparr> \<in> set (safes statusConfig)
   \<and> getSafe sampleNet ''0xS'' mainnet = None
   \<and> fst (fetchQueuedTransactions sampleNet ''0xS'' mainnet) = [fetchedTx]
   \<and> truthy (showStatusIcon (formatOptions statusConfig))
   \<and> fst (monitorSafeWalletQueue sampleNet statusConfig) = Inr statusResult
   \<and> rawData statusResult = [sampleData]
   \<and> safeInfo sampleData = None \<and> transactions sampleData = [fetchedTx]
   \<and> formatTransactionMessage fetchedTx mainnet [] [] statusOptions =
       getChainIcon mainnet @ '' MAINNET - Tx 15 '' @ iconNeedsAttention @ '' 2/3\<newline>''
   \<and> getChainIcon mainnet @ '' MAINNET - Tx 15 '' @ iconNeedsAttention @ '' 2/3\<newline>''
       \<in> set (messages statusResult)"
proof -
  let ?s = "\<lparr> SafeAddress.address = ''0xS'', SafeAddress.chain = mainnet \<rparr>"
  have a: "?s \<in> set (safes statusConfig)"
    by (simp add: statusConfig_def sampleSafes_def)
  have b: "getSafe sampleNet (SafeAddress.address ?s) (SafeAddress.chain ?s) = None"
    by (simp add: sampleNet_def)
  have c: "fst (fetchQueuedTransactions sampleNet (SafeAddress.address ?s) (SafeAddress.chain ?s)) \<noteq> []"
    by (simp add: fetch_sample)
  have r: "fst (monitorSafeWalletQueue sampleNet statusConfig) = Inr statusResult"
    by (simp add: status_run)
  have fo: "formatOptions statusConfig = statusOptions" "signers statusConfig = []"
    by (simp_all add: statusConfig_def)
  have ts: "truthy (showStatusIcon statusOptions)" "truthy (showChainIcon statusOptions)"
    "\<not> truthy (showTxNote statusOptions)"
    by (simp_all add: statusOptions_def truthy_def)
  have sd: "rawData statusResult = [sampleData]" "safeInfo sampleData = None"
    "transactions sampleData = [fetchedTx]" "chain sampleData = mainnet"
    by (simp_all add: statusResult_def sampleData_def)
  have ft: "signedCount fetchedTx = 2" "confirmationsRequired fetchedTx = 3" "nonce fetchedTx = 15"
    "note fetchedTx = None"
    by (simp_all add: fetchedTx_def)
  from C7_ownership_failure [OF a b c] obtain result d where
    R: "fst (monitorSafeWalletQueue sampleNet statusConfig) = Inr result" and
    D: "d \<in> set (rawData result)" and
    M: "\<forall>tx \<in> set (transactions d).
          formatTransactionMessage tx (chain d) (ownersOf (safeInfo d)) (signers statusConfig)
              (formatOptions statusConfig)
            = (if truthy (showChainIcon (formatOptions statusConfig)) then getChainIcon (chain d) else [])
              @ '' '' @ toUpperCase (chainString (chain d)) @ '' - Tx '' @ numToString (nonce tx)
              @ '' ''
              @ (if truthy (showStatusIcon (formatOptions statusConfig))
                 then getStatusIcon (signedCount tx) (confirmationsRequired tx) else [])
              @ '' '' @ numToString (signedCount tx) @ ''/''
              @ numToString (confirmationsRequired tx) @ ''\<newline>''
              @ (case note tx of
                   Some n \<Rightarrow>
                     if truthy (showTxNote (formatOptions statusConfig)) \<and> n \<noteq> []
                     then ''    '' @ iconNearlyReady @ '' Note: '' @ n @ ''\<newline>''
                     else []
                 | None \<Rightarrow> [])
          \<and> formatTransactionMessage tx (chain d) (ownersOf (safeInfo d)) (signers statusConfig)
              (formatOptions statusConfig)
              \<in> set (messages result)"
    by blast
  have res: "result = statusResult" using R r by simp
  have dd: "d = sampleData" using D unfolding res sd by simp
  have own: "ownersOf (safeInfo sampleData) = []" by (simp add: sd ownersOf_def)
  from M [unfolded dd sd, simplified, unfolded fo own res]
  have 1: "formatTransactionMessage fetchedTx mainnet [] [] statusOptions =
       getChainIcon mainnet @ '' MAINNET - Tx 15 '' @ iconNeedsAttention @ '' 2/3\<newline>''"
    using ts ft
    by (simp add: ownersOf_def getStatusIcon_2_3 numToString_15 numToString_2 numToString_3
        string_eval)
  have 2: "getChainIcon mainnet @ '' MAINNET - Tx 15 '' @ iconNeedsAttention @ '' 2/3\<newline>''
       \<in> set (messages statusResult)"
    by (simp add: statusResult_def statusMessages_def)
  show ?thesis
    using a b fetch_sample r sd 1 2 ts fo by simp
qed

section \<open>The configuration error and the dispatch\<close>

text \<open>
  C8. The run fails exactly when the list of wallets is empty, with the configuration
  error and before any request is issued; for every other list it returns a result.
\<close>

theorem C8_configuration_error:
  "((\<exists>e. fst (monitorSafeWalletQueue net config) = Inl e) \<longleftrightarrow> safes config = [])
   \<and> (safes config = [] \<longrightarrow> monitorSafeWalletQueue net config = (Inl ConfigError, []))
   \<and> (safes config \<noteq> [] \<longrightarrow> (\<exists>result. fst (monitorSafeWalletQueue net config) = Inr result))"
proof -
  have a: "safes config = [] \<longrightarrow> monitorSafeWalletQueue net config = (Inl ConfigError, [])"
    by (simp add: monitorSafeWalletQueue_empty)
  have b: "safes config \<noteq> [] \<longrightarrow> (\<exists>result. fst (monitorSafeWalletQueue net config) = Inr result)"
  proof
    assume ne: "safes config \<noteq> []"
    show "\<exists>result. fst (monitorSafeWalletQueue net config) = Inr result"
      unfolding monitorSafeWalletQueue_run [OF ne] by simp
  qed
  show ?thesis using a b by (cases "safes config = []") auto
qed

lemma idle_fetchAll:
  "fst (fetchAllQueuedTransactions idleNet sampleSafes pendingOnly) = []"
  by (simp add: fetchAllQueuedTransactions_def safesByChain_def sampleSafes_def addSafe_def
      fetchSafe_def fetchQueuedTransactions_def fetchSafeInfo_def idleNet_def
      split: prod.splits)

theorem C8_configuration_error_witness:
  "safes emptyConfig = []
   \<and> monitorSafeWalletQueue sampleNet emptyConfig = (Inl ConfigError, [])
   \<and> safes (sampleConfig []) \<noteq> []
   \<and> (\<exists>result. fst (monitorSafeWalletQueue idleNet (sampleConfig [])) = Inr result
         \<and> totalTransactions result = 0 \<and> rawData result = [])"
proof -
  have e: "safes emptyConfig = []" by (simp add: emptyConfig_def)
  have n: "safes (sampleConfig []) \<noteq> []" by (simp add: sampleConfig_def sampleSafes_def)
  from C8_configuration_error [of sampleNet emptyConfig] e
  have 1: "monitorSafeWalletQueue sampleNet emptyConfig = (Inl ConfigError, [])" by simp
  from C8_configuration_error [of idleNet "sampleConfig []"] n
  obtain result where r: "fst (monitorSafeWalletQueue idleNet (sampleConfig [])) = Inr result"
    by blast
  note R = monitorSafeWalletQueue_Inr [OF r]
  have "rawData result = []"
    unfolding R(2) using idle_fetchAll by (simp add: sampleConfig_def)
  then have "totalTransactions result = 0 \<and> rawData result = []"
    using R(3) by simp
  then show ?thesis using e n 1 r by blast
qed

lemma sendNotifications_mem:
  "e \<in> set (sendNotifications configs message) \<longleftrightarrow>
     (\<exists>cfg \<in> set configs. e \<in> set (sendNotification cfg message))"
  by (auto simp: sendNotifications_def)

lemma sendNotification_enabled:
  "e \<in> set (sendNotification cfg message) \<Longrightarrow> enabled cfg \<and> isDelivery e"
  by (cases cfg) (auto split: if_splits)

lemma request_not_delivery: "isRequest e \<Longrightarrow> \<not> isDelivery e \<and> (\<forall>cfgs msg. e \<noteq> Dispatch cfgs msg)"
  by (cases e) auto

text \<open>
  C5, as the program has it. A run that returns a result calls the notification module,
  with the whole list of channels and the messages joined by newlines, exactly when there
  is at least one transaction and the list of channels is not empty; and a message is
  delivered only to an enabled channel of the list, and only when there is at least one
  transaction.
\<close>

theorem C5_dispatch_guard:
  assumes "fst (monitorSafeWalletQueue net config) = Inr result"
  shows "(Dispatch cfgs msg \<in> set (snd (monitorSafeWalletQueue net config)) \<longleftrightarrow>
            totalTransactions result > 0 \<and> notifications config \<noteq> []
            \<and> cfgs = notifications config \<and> msg = join ''\<newline>'' (messages result))
       \<and> (isDelivery e \<and> e \<in> set (snd (monitorSafeWalletQueue net config)) \<longrightarrow>
            totalTransactions result > 0
            \<and> (\<exists>cfg \<in> set (notifications config).
                  enabled cfg \<and> e \<in> set (sendNotification cfg (join ''\<newline>'' (messages result)))))"
proof -
  note R = monitorSafeWalletQueue_Inr [OF assms]
  let ?data = "fst (fetchAllQueuedTransactions net (safes config) (formatOptions config))"
  let ?ev = "snd (fetchAllQueuedTransactions net (safes config) (formatOptions config))"
  let ?m = "join ''\<newline>'' (messages result)"
  have tot: "foldl (\<lambda>sum d. sum + length (transactions d)) 0 ?data = totalTransactions result"
    unfolding R(3) R(2) by (simp add: total_sum)
  have msgs: "fst (formatTransactionData ?data (signers config) (formatOptions config)) = messages result"
    unfolding R(4) R(2) ..
  have tr: "snd (monitorSafeWalletQueue net config) =
      ?ev @ (if totalTransactions result > 0 \<and> notifications config \<noteq> []
             then Dispatch (notifications config) ?m # sendNotifications (notifications config) ?m
             else [])"
    unfolding monitorSafeWalletQueue_run [OF R(1)] snd_conv tot msgs ..
  have req: "\<forall>x \<in> set ?ev. isRequest x"
    using fetchAllQueuedTransactions_events [of net "safes config" "formatOptions config"]
    by (simp add: list_all_iff)
  have nd: "Dispatch cfgs msg \<notin> set ?ev" "isDelivery e \<Longrightarrow> e \<notin> set ?ev"
    using req request_not_delivery by blast+
  have sd: "Dispatch cfgs msg \<notin> set (sendNotifications (notifications config) ?m)"
    using sendNotification_enabled [of "Dispatch cfgs msg"] unfolding sendNotifications_mem by auto
  have 1: "Dispatch cfgs msg \<in> set (snd (monitorSafeWalletQueue net config)) \<longleftrightarrow>
            totalTransactions result > 0 \<and> notifications config \<noteq> []
            \<and> cfgs = notifications config \<and> msg = ?m"
    unfolding tr using nd(1) sd by auto
  have 2: "isDelivery e \<and> e \<in> set (snd (monitorSafeWalletQueue net config)) \<longrightarrow>
            totalTransactions result > 0
            \<and> (\<exists>cfg \<in> set (notifications config). enabled cfg \<and> e \<in> set (sendNotification cfg ?m))"
  proof
    assume a: "isDelivery e \<and> e \<in> set (snd (monitorSafeWalletQueue net config))"
    then have "e \<notin> set ?ev" using nd(2) by simp
    then have t: "totalTransactions result > 0" and
      "e \<in> set (sendNotifications (notifications config) ?m)"
      using a unfolding tr by (auto split: if_splits)
    then obtain cfg where "cfg \<in> set (notifications config)" "e \<in> set (sendNotification cfg ?m)"
      unfolding sendNotifications_mem by blast
    then show "totalTransactions result > 0
            \<and> (\<exists>cfg \<in> set (notifications config). enabled cfg \<and> e \<in> set (sendNotification cfg ?m))"
      using t sendNotification_enabled by blast
  qed
  show ?thesis using 1 2 by blast
qed

text \<open>
  With one transaction and a single, disabled channel the notification module is called
  all the same, though no channel of the list is enabled; it delivers nothing.
\<close>

theorem C5_dispatch_counterexample:
  "monitorSafeWalletQueue sampleNet (sampleConfig [Console False None]) =
     (Inr sampleResult,
      [QueuedRequest ''0xS'' mainnet, SafeInfoRequest ''0xS'' mainnet,
       Dispatch [Console False None] (join ''\<newline>'' sampleMessages)])
   \<and> totalTransactions sampleResult = 1
   \<and> notifications (sampleConfig [Console False None]) = [Console False None]
   \<and> enabled (Console False None) = False"
proof -
  have "monitorSafeWalletQueue sampleNet (sampleConfig [Console False None]) =
     (Inr sampleResult,
      [QueuedRequest ''0xS'' mainnet, SafeInfoRequest ''0xS'' mainnet,
       Dispatch [Console False None] (join ''\<newline>'' sampleMessages)])"
    by (simp add: sample_run sendNotifications_def)
  moreover have "totalTransactions sampleResult = 1" by (simp add: sampleResult_def)
  moreover have "notifications (sampleConfig [Console False None]) = [Console False None]"
    by (simp add: sampleConfig_def)
  ultimately show ?thesis by simp
qed

theorem C5_dispatch_guard_witness:
  "fst (monitorSafeWalletQueue sampleNet (sampleConfig [Console True None, Webhook False ''u'' None]))
     = Inr sampleResult
   \<and> snd (monitorSafeWalletQueue sampleNet (sampleConfig [Console True None, Webhook False ''u'' None]))
     = [QueuedRequest ''0xS'' mainnet, SafeInfoRequest ''0xS'' mainnet,
        Dispatch [Console True None, Webhook False ''u'' None] (join ''\<newline>'' sampleMessages),
        ConsolePrint True (join ''\<newline>'' sampleMessages)]
   \<and> isDelivery (ConsolePrint True (join ''\<newline>'' sampleMessages))
   \<and> totalTransactions sampleResult > 0
   \<and> enabled (Console True None)"
proof -
  let ?c = "sampleConfig [Console True None, Webhook False ''u'' None]"
  let ?m = "join ''\<newline>'' sampleMessages"
  have h: "fst (monitorSafeWalletQueue sampleNet ?c) = Inr sampleResult"
    by (simp add: sample_run)
  have t: "snd (monitorSafeWalletQueue sampleNet ?c)
     = [QueuedRequest ''0xS'' mainnet, SafeInfoRequest ''0xS'' mainnet,
        Dispatch [Console True None, Webhook False ''u'' None] ?m, ConsolePrint True ?m]"
    by (simp add: sample_run sendNotifications_def)
  have d: "isDelivery (ConsolePrint True ?m) \<and>
           ConsolePrint True ?m \<in> set (snd (monitorSafeWalletQueue sampleNet ?c))"
    unfolding t by simp
  from C5_dispatch_guard [OF h, of "[]" "[]" "ConsolePrint True ?m"] d
  have "totalTransactions sampleResult > 0" by blast
  then show ?thesis using h t by simp
qed

section \<open>The signer summary\<close>

lemma map_of_set_key:
  "map_of (map (\<lambda>(k', v). if k' = x then (k', m) else (k', v)) s) k =
     (if k = x then (case map_of s x of None \<Rightarrow> None | Some v \<Rightarrow> Some m) else map_of s k)"
  by (induction s) auto

lemma keys_set_key:
  "map fst (map (\<lambda>(k', v). if k' = x then (k', m) else (k', v)) s) = map fst s"
  by (induction s) auto

lemma values_set_key:
  "p \<in> set (map (\<lambda>(k', v). if k' = x then (k', m) else (k', v)) s) \<Longrightarrow>
   snd p = m \<or> p \<in> set s"
  by (induction s) (auto split: if_splits)

lemma tally_countSigner:
  "tally (countSigner s a) k = tally s k + (if toLowerCase a = k then 1 else 0)"
proof (cases "map_of s (toLowerCase a)")
  case None
  then show ?thesis
    by (auto simp: countSigner_def Let_def tally_def map_of_append split: option.splits)
next
  case (Some n)
  then show ?thesis
    by (auto simp: countSigner_def Let_def tally_def map_of_set_key split: option.splits)
qed

lemma keys_countSigner:
  "map fst (countSigner s a) =
     (if toLowerCase a \<in> set (map fst s) then map fst s else map fst s @ [toLowerCase a])"
proof (cases "map_of s (toLowerCase a)")
  case None
  then have "toLowerCase a \<notin> fst ` set s" by (simp add: map_of_eq_None_iff)
  then show ?thesis using None by (simp add: countSigner_def Let_def)
next
  case (Some n)
  then have "(toLowerCase a, n) \<in> set s" by (rule map_of_SomeD)
  then have k: "toLowerCase a \<in> set (map fst s)" by force
  have cs: "countSigner s a =
      map (\<lambda>(k', v). if k' = toLowerCase a then (k', n + 1) else (k', v)) s"
    using Some by (simp add: countSigner_def Let_def)
  show ?thesis unfolding cs keys_set_key using k by simp
qed

lemma positive_countSigner:
  assumes "\<forall>p \<in> set s. 0 < snd p"
  shows "\<forall>p \<in> set (countSigner s a). 0 < snd p"
proof (cases "map_of s (toLowerCase a)")
  case None
  then show ?thesis using assms by (auto simp: countSigner_def Let_def)
next
  case (Some n)
  have cs: "countSigner s a =
      map (\<lambda>(k', v). if k' = toLowerCase a then (k', n + 1) else (k', v)) s"
    using Some by (simp add: countSigner_def Let_def)
  show ?thesis
  proof
    fix p assume "p \<in> set (countSigner s a)"
    then have "snd p = n + 1 \<or> p \<in> set s" unfolding cs by (rule values_set_key)
    then show "0 < snd p" using assms by auto
  qed
qed

lemma summaryOk_countSigner: "summaryOk s \<Longrightarrow> summaryOk (countSigner s a)"
  unfolding summaryOk_def using positive_countSigner [of s a]
  by (simp add: keys_countSigner)

lemma foldl_countSigner:
  "summaryOk s \<Longrightarrow>
   summaryOk (foldl countSigner s ms)
   \<and> tally (foldl countSigner s ms) k = tally s k + count_list (map toLowerCase ms) k"
proof (induction ms arbitrary: s)
  case Nil
  then show ?case by simp
next
  case (Cons a ms)
  from Cons.IH [OF summaryOk_countSigner [OF Cons.prems], of ] show ?case
    by (auto simp: tally_countSigner)
qed

lemma countTransaction_tally:
  "summaryOk s \<Longrightarrow>
   summaryOk (countTransaction s tx)
   \<and> tally (countTransaction s tx) k = tally s k + count_list (map toLowerCase (missingOf tx)) k"
  using foldl_countSigner [of s]
  by (cases "missingSigners tx") (simp_all add: countTransaction_def missingOf_def)

lemma foldl_countTransaction:
  "summaryOk s \<Longrightarrow>
   summaryOk (foldl countTransaction s txs)
   \<and> tally (foldl countTransaction s txs) k =
       tally s k + count_list (map toLowerCase (concat (map missingOf txs))) k"
proof (induction txs arbitrary: s)
  case Nil
  then show ?case by simp
next
  case (Cons tx txs)
  note step = countTransaction_tally [OF Cons.prems, of tx k]
  from Cons.IH [of "countTransaction s tx"] step show ?case by simp
qed

lemma foldl_wallets:
  "summaryOk s \<Longrightarrow>
   summaryOk (foldl (\<lambda>summary d. foldl countTransaction summary (transactions d)) s data)
   \<and> tally (foldl (\<lambda>summary d. foldl countTransaction summary (transactions d)) s data) k =
       tally s k + count_list (map toLowerCase (concat (map missingOf (allTransactions data)))) k"
proof (induction data arbitrary: s)
  case Nil
  then show ?case by (simp add: allTransactions_def)
next
  case (Cons d data)
  note step = foldl_countTransaction [OF Cons.prems, of "transactions d" k]
  from Cons.IH [of "foldl countTransaction s (transactions d)"] step show ?case
    by (simp add: allTransactions_def)
qed

lemma summaryOk_map_of:
  assumes "summaryOk s"
  shows "map_of s k = (if tally s k = 0 then None else Some (tally s k))"
proof (cases "map_of s k")
  case None
  then show ?thesis by (simp add: tally_def)
next
  case (Some n)
  then have "(k, n) \<in> set s" by (rule map_of_SomeD)
  then have "0 < n" using assms unfolding summaryOk_def by force
  then show ?thesis using Some by (simp add: tally_def)
qed

lemma count_list_distinct:
  "distinct xs \<Longrightarrow> count_list xs k = (if k \<in> set xs then 1 else 0)"
  by (induction xs) auto

lemma count_transactions:
  "\<forall>tx \<in> set txs. distinct (map toLowerCase (missingOf tx)) \<Longrightarrow>
   count_list (map toLowerCase (concat (map missingOf txs))) k =
     length (filter (\<lambda>tx. k \<in> set (map toLowerCase (missingOf tx))) txs)"
  by (induction txs) (simp_all add: count_list_distinct)

text \<open>
  C3, as the program has it. When no entry of a \<open>missingSigners\<close> list is, in lower
  case, a property name that an object literal inherits, the signer summary has one entry
  for each case-normalized address that occurs in the \<open>missingSigners\<close> list of some
  transaction of some wallet, and no other; the entry is the number of occurrences of the
  address, compared case-insensitively, in all these lists. When no list names an address
  twice this is the number of transactions whose list contains the address.
\<close>

theorem C3_signer_summary:
  assumes "\<forall>tx \<in> set (allTransactions data). \<forall>a \<in> set (missingOf tx). \<not> inheritedKey (toLowerCase a)"
  shows "map_of (snd (formatTransactionData data sgs options)) k =
     (if count_list (map toLowerCase (concat (map missingOf (allTransactions data)))) k = 0 then None
      else Some (count_list (map toLowerCase (concat (map missingOf (allTransactions data)))) k))
   \<and> distinct (map fst (snd (formatTransactionData data sgs options)))
   \<and> ((\<forall>tx \<in> set (allTransactions data). distinct (map toLowerCase (missingOf tx))) \<longrightarrow>
        count_list (map toLowerCase (concat (map missingOf (allTransactions data)))) k =
          length (filter (\<lambda>tx. k \<in> set (map toLowerCase (missingOf tx))) (allTransactions data)))"
proof -
  have ok: "summaryOk []" by (simp add: summaryOk_def)
  have s: "snd (formatTransactionData data sgs options) =
      foldl (\<lambda>summary d. foldl countTransaction summary (transactions d)) [] data"
    by (simp add: formatTransactionData_def Let_def)
  note f = foldl_wallets [OF ok, of data k]
  have t: "tally (snd (formatTransactionData data sgs options)) k =
      count_list (map toLowerCase (concat (map missingOf (allTransactions data)))) k"
    unfolding s using f by (simp add: tally_def)
  have o: "summaryOk (snd (formatTransactionData data sgs options))"
    unfolding s using f by simp
  have 1: "map_of (snd (formatTransactionData data sgs options)) k =
     (if count_list (map toLowerCase (concat (map missingOf (allTransactions data)))) k = 0 then None
      else Some (count_list (map toLowerCase (concat (map missingOf (allTransactions data)))) k))"
    using summaryOk_map_of [OF o, of k] unfolding t .
  have 2: "distinct (map fst (snd (formatTransactionData data sgs options)))"
    using o unfolding summaryOk_def by simp
  show ?thesis using 1 2 count_transactions [of "allTransactions data" k] by blast
qed

text \<open>
  One transaction that names a signer twice, in two spellings: the summary counts 2 for
  the signer, though a single transaction misses the signature.
\<close>

theorem C3_signer_summary_counterexample:
  "snd (formatTransactionData [repeatedData] [] pendingOnly) = [(''0xab'', 2)]
   \<and> transactions repeatedData = [repeatedTx]
   \<and> length (transactions repeatedData) = 1
   \<and> missingSigners repeatedTx = Some [''0xAB'', ''0xab'']
   \<and> \<not> inheritedKey ''0xab''"
  by (simp add: formatTransactionData_def repeatedData_def repeatedTx_def countTransaction_def
      countSigner_def inheritedKey_def string_eval)

theorem C3_signer_summary_witness:
  "allTransactions [sampleData] = [fetchedTx]
   \<and> map toLowerCase (missingOf fetchedTx) = [''0xbb'']
   \<and> \<not> inheritedKey ''0xbb''
   \<and> distinct (map toLowerCase (missingOf fetchedTx))
   \<and> map_of (snd (formatTransactionData [sampleData] [] pendingOnly)) ''0xbb'' = Some 1
   \<and> length (filter (\<lambda>tx. ''0xbb'' \<in> set (map toLowerCase (missingOf tx)))
        (allTransactions [sampleData])) = 1
   \<and> map_of (snd (formatTransactionData [sampleData] [] pendingOnly)) ''0xcc'' = None"
proof -
  have a: "allTransactions [sampleData] = [fetchedTx]"
    by (simp add: allTransactions_def sampleData_def)
  have mo: "missingOf fetchedTx = [''0xBB'']"
    by (simp add: missingOf_def fetchedTx_def)
  have m: "map toLowerCase (missingOf fetchedTx) = [''0xbb'']"
    by (simp add: mo string_eval)
  have lo: "toLowerCase ''0xBB'' = ''0xbb''" using m unfolding mo by simp
  have ik: "\<not> inheritedKey ''0xbb''" by (simp add: inheritedKey_def)
  have p: "\<forall>tx \<in> set (allTransactions [sampleData]). \<forall>a \<in> set (missingOf tx).
             \<not> inheritedKey (toLowerCase a)"
    unfolding a using ik by (simp add: mo lo)
  have h: "\<forall>tx \<in> set (allTransactions [sampleData]). distinct (map toLowerCase (missingOf tx))"
    unfolding a by (simp add: m)
  have c: "count_list (map toLowerCase (concat (map missingOf (allTransactions [sampleData])))) ''0xbb'' = 1"
    unfolding a using m by simp
  have c': "count_list (map toLowerCase (concat (map missingOf (allTransactions [sampleData])))) ''0xcc'' = 0"
    unfolding a using m by simp
  note T = C3_signer_summary [OF p, of "[]" pendingOnly "''0xbb''"]
  note U = C3_signer_summary [OF p, of "[]" pendingOnly "''0xcc''"]
  have 1: "map_of (snd (formatTransactionData [sampleData] [] pendingOnly)) ''0xbb'' = Some 1"
    using T [THEN conjunct1] unfolding c by simp
  have 2: "length (filter (\<lambda>tx. ''0xbb'' \<in> set (map toLowerCase (missingOf tx)))
        (allTransactions [sampleData])) = 1"
    using T [THEN conjunct2, THEN conjunct2] h unfolding c by simp
  have 3: "map_of (snd (formatTransactionData [sampleData] [] pendingOnly)) ''0xcc'' = None"
    using U [THEN conjunct1] unfolding c' by simp
  have d: "distinct (map toLowerCase (missingOf fetchedTx))" by (simp add: m)
  show ?thesis using a m ik d 1 2 3 by blast
qed

section \<open>Omitted options\<close>

lemma formatTransactionMessage_noOptions:
  "formatTransactionMessage tx c safeOwners sgs noOptions =
     '' '' @ toUpperCase (chainString c) @ '' - Tx '' @ numToString (nonce tx) @ ''  ''
       @ numToString (signedCount tx) @ ''/'' @ numToString (confirmationsRequired tx) @ ''\<newline>''"
  by (simp add: formatTransactionMessage_def headerLine_def noteLine_def signerLines_def
      noOptions_def truthy_def split: option.splits)

lemma fetchSafe_noOptions: "snd (fetchSafe net noOptions c a) = [QueuedRequest a c]"
  by (simp add: fetchSafe_def fetchQueuedTransactions_def noOptions_def truthy_def
      split: prod.splits)

text \<open>
  C4. An omitted option counts as false. With the options object \<open>{}\<close> the message of a
  transaction is the header line without chain icon and status icon, whatever its note
  and its missing signers, and the aggregator requests neither the owners nor the notes;
  with the documented defaults written out, the sample transaction gets its chain icon,
  its note line and its line of unsigned signers, and both requests are issued.
\<close>

theorem C4_omitted_options:
  "formatTransactionMessage tx c safeOwners sgs noOptions =
     '' '' @ toUpperCase (chainString c) @ '' - Tx '' @ numToString (nonce tx) @ ''  ''
       @ numToString (signedCount tx) @ ''/'' @ numToString (confirmationsRequired tx) @ ''\<newline>''
   \<and> snd (fetchSafe net noOptions c a) = [QueuedRequest a c]
   \<and> formatTransactionMessage sampleTx mainnet sampleOwners [] noOptions =
       '' MAINNET - Tx 15  1/3\<newline>''
   \<and> formatTransactionMessage sampleTx mainnet sampleOwners [] documentedDefaults =
       getChainIcon mainnet @ '' MAINNET - Tx 15  1/3\<newline>''
         @ ''    '' @ iconNearlyReady @ '' Note: Pay\<newline>''
         @ ''    '' @ iconNotSigned @ '' Not Signed: 0xBB, 0xcc\<newline>''
   \<and> snd (fetchSafe sampleNet documentedDefaults mainnet ''0xS'') =
       [QueuedRequest ''0xS'' mainnet, SafeInfoRequest ''0xS'' mainnet,
        DetailsRequest ''multisig_0xS_0x01'' mainnet]"
proof -
  note 1 = formatTransactionMessage_noOptions [of tx c safeOwners sgs]
  note 2 = fetchSafe_noOptions [of net c a]
  have 3: "formatTransactionMessage sampleTx mainnet sampleOwners [] noOptions =
       '' MAINNET - Tx 15  1/3\<newline>''"
    unfolding formatTransactionMessage_noOptions
    by (simp add: sampleTx_def numToString_15 numToString_3 numToString_one string_eval)
  have l: "signerLists sampleTx sampleOwners = ([''0xaa''], [''0xBB'', ''0xcc''])"
    by (simp add: signerLists_def sampleTx_def sampleOwners_def string_eval)
  have o: "sampleOwners \<noteq> []" by (simp add: sampleOwners_def)
  have sl: "signerLines sampleTx sampleOwners [] documentedDefaults =
      ''    '' @ iconNotSigned @ '' Not Signed: 0xBB, 0xcc\<newline>''"
    by (simp add: signerLines_def l o documentedDefaults_def truthy_def addSignerLine_def
        getSignerHandle_def shortenAddress_def)
  have hl: "headerLine sampleTx mainnet documentedDefaults =
      getChainIcon mainnet @ '' MAINNET - Tx 15  1/3\<newline>''"
    by (simp add: headerLine_def documentedDefaults_def truthy_def sampleTx_def
        numToString_15 numToString_3 numToString_one string_eval)
  have nl: "noteLine sampleTx documentedDefaults = ''    '' @ iconNearlyReady @ '' Note: Pay\<newline>''"
    by (simp add: noteLine_def documentedDefaults_def truthy_def sampleTx_def)
  have 4: "formatTransactionMessage sampleTx mainnet sampleOwners [] documentedDefaults =
       getChainIcon mainnet @ '' MAINNET - Tx 15  1/3\<newline>''
         @ ''    '' @ iconNearlyReady @ '' Note: Pay\<newline>''
         @ ''    '' @ iconNotSigned @ '' Not Signed: 0xBB, 0xcc\<newline>''"
    by (simp add: formatTransactionMessage_def hl nl sl)
  have q: "fetchQueuedTransactions sampleNet ''0xS'' mainnet = ([fetchedTx], [QueuedRequest ''0xS'' mainnet])"
    using fetch_sample by (simp add: prod_eq_iff fetchQueuedTransactions_def)
  have 5: "snd (fetchSafe sampleNet documentedDefaults mainnet ''0xS'') =
       [QueuedRequest ''0xS'' mainnet, SafeInfoRequest ''0xS'' mainnet,
        DetailsRequest ''multisig_0xS_0x01'' mainnet]"
    by (simp add: fetchSafe_def q fetchSafeInfo_def documentedDefaults_def truthy_def
        addNote_def fetchTransactionDetails_def fetchedTx_def)
  show ?thesis using 1 2 3 4 5 by blast
qed

end
